theory Spec2Isabelle
  imports Complex_Main "HOL-Library.Sublist"
begin

section \<open>Values, exceptions and the observable world\<close>

text \<open>
  The scripts \<^verbatim>\<open>run-transcription-in-server.py\<close> and \<^verbatim>\<open>youtube_whisper_transcript.py\<close>
  share their five pipeline functions word for word (the second one reports through
  Streamlit instead of \<^verbatim>\<open>print\<close>). The model follows the server script.

  A Python \<^verbatim>\<open>Exception\<close> is a value of \<open>exn\<close>; a function that may raise returns
  \<open>(exn + 'a) \<times> world\<close>, so the effects done before the raise are kept.
  \<^verbatim>\<open>KeyboardInterrupt\<close> and \<^verbatim>\<open>SystemExit\<close> are not \<^verbatim>\<open>Exception\<close>s and are not raised by any
  modelled collaborator.
\<close>

type_synonym path = string

datatype exn =
    KeyError string
  | TypeError
  | AttributeError
  | EOFError
  | OSError string
  | UnicodeEncodeError
  | UnicodeDecodeError
  | External string
  | Exception string

datatype json =
    JNull
  | JBool bool
  | JNum int
  | JStr string
  | JArr "json list"
  | JObj "(string \<times> json) list"

text \<open>
  A segment of \<^verbatim>\<open>result["segments"]\<close>. Its text is a Python \<^verbatim>\<open>str\<close> of any script: the
  list of its Unicode code points. Identifiers, paths and the other texts of the program
  are \<open>string\<close>s, whose characters stand for code points below 256; the content of a
  file is a \<open>string\<close> of bytes.
\<close>

record segment =
  seg_text :: "nat list"
  seg_start :: real
  seg_end :: real

datatype device = Cuda int | Cpu

text \<open>
  How \<^verbatim>\<open>model.transcribe\<close> is called: without a \<^verbatim>\<open>language\<close> keyword (line 125) or with
  \<^verbatim>\<open>language=language_code\<close> (line 128), where \<^verbatim>\<open>language_code\<close> may be \<^verbatim>\<open>None\<close>.
\<close>

datatype lang_arg = NoLanguageArg | LanguageArg "string option"

record video_info =
  vi_id :: json
  vi_title :: json
  vi_publishedAt :: json
  vi_duration :: json

text \<open>
  The lines written to standard output, one constructor per \<^verbatim>\<open>print\<close> of the source,
  carrying the interpolated values. The timestamp prefix is wall-clock time and is left out.
\<close>

datatype msg =
    MsgFetchError exn
  | MsgReadError exn
  | MsgSkipDownload string
  | MsgDownloadError string exn
  | MsgSkipTranscription string
  | MsgUsingGpu string
  | MsgCudaNotAvailable
  | MsgLoadingModel
  | MsgAutoDetect string
  | MsgSpecifiedLanguage "string option" string
  | MsgTranscriptSaved string path
  | MsgTranscribeError string exn
  | MsgMustBeTxt
  | MsgFileNotFound path
  | MsgApiKeyRequired
  | MsgSelectLanguage
  | MsgLanguageOption nat string
  | MsgInvalidSelection
  | MsgInvalidInput
  | MsgSelectedAuto
  | MsgSelectedLanguage string
  | MsgNoVideoIds
  | MsgFound nat
  | MsgVideoInfoFetched nat
  | MsgProcessing nat nat string
  | MsgErrorForVideo string exn
  | MsgProcessingComplete "string list"

text \<open>
  Everything the program does to the outside is an event of the trace. The two
  \<open>Call_\<close> events record the entry into a pipeline function with its arguments; the
  others are calls of a collaborator.
\<close>

datatype event =
    Print msg
  | Input string
  | Makedirs path
  | YdlDownload string string
  | CudaSetDevice int
  | CudaGetDeviceName int
  | LoadModel string device
  | ModelTranscribe path lang_arg
  | OpenWrite path
  | OpenRead path
  | ApiBuild string
  | ApiExecute string string
  | Call_download_youtube_audio string path
  | Call_transcribe_audio_and_save_to_txt path string "string option" path bool int

record world =
  files :: "path \<rightharpoonup> string"
  dirs :: "path set"
  stdin :: "string list"
  trace :: "event list"

text \<open>
  The collaborators, as parameters. Each one sees the world at the moment it is called
  (its files and the whole trace so far), so two calls with the same arguments may
  answer differently.
  \<^item> \<open>mkdir_error\<close>: the error of creating a directory that does not exist yet;
  \<^item> \<open>ydl_download\<close>: \<^verbatim>\<open>yt_dlp.YoutubeDL(opts).download([url])\<close>: the exception it raises,
    if any, and the content it leaves at the \<^verbatim>\<open>.mp3\<close> path, if any;
  \<^item> \<open>model_transcribe\<close>: \<^verbatim>\<open>model.transcribe\<close>, returning \<^verbatim>\<open>result["segments"]\<close>;
  \<^item> \<open>open_error\<close>: the error of \<^verbatim>\<open>open\<close>, if any;
  \<^item> \<open>decode_text\<close>: the decoder of a file opened for reading without an
    \<^verbatim>\<open>encoding\<close> argument (the locale's preferred encoding), from bytes to text;
  \<^item> \<open>api_build\<close>, \<open>api_execute\<close>: the client of the metadata service;
  \<^item> \<open>py_int\<close>: the builtin \<^verbatim>\<open>int\<close> on a string; \<open>getenv\<close>: \<^verbatim>\<open>os.getenv\<close> after
    \<^verbatim>\<open>load_dotenv()\<close>.
\<close>

record env =
  mkdir_error :: "world \<Rightarrow> path \<Rightarrow> exn option"
  ydl_download :: "world \<Rightarrow> string \<Rightarrow> string \<Rightarrow> exn option \<times> string option"
  cuda_is_available :: "world \<Rightarrow> bool"
  cuda_set_device :: "world \<Rightarrow> int \<Rightarrow> exn option"
  cuda_get_device_name :: "world \<Rightarrow> int \<Rightarrow> exn + string"
  load_model :: "world \<Rightarrow> string \<Rightarrow> device \<Rightarrow> exn option"
  model_transcribe :: "world \<Rightarrow> path \<Rightarrow> lang_arg \<Rightarrow> exn + segment list"
  open_error :: "world \<Rightarrow> path \<Rightarrow> exn option"
  decode_text :: "string \<Rightarrow> exn + string"
  api_build :: "world \<Rightarrow> string \<Rightarrow> exn option"
  api_execute :: "world \<Rightarrow> string \<Rightarrow> string \<Rightarrow> exn + json"
  py_int :: "string \<Rightarrow> int option"
  getenv :: "string \<Rightarrow> string option"

definition emit :: "event \<Rightarrow> world \<Rightarrow> world" where
  "emit e w = w\<lparr>trace := trace w @ [e]\<rparr>"

definition new_events :: "world \<Rightarrow> world \<Rightarrow> event list" where
  "new_events w w' = drop (length (trace w)) (trace w')"

text \<open>\<^verbatim>\<open>os.path.exists\<close>: true of a file and of a directory.\<close>

definition path_exists :: "world \<Rightarrow> path \<Rightarrow> bool" where
  "path_exists w p = (p \<in> dom (files w) \<or> p \<in> dirs w)"

text \<open>\<^verbatim>\<open>os.path.join\<close> of two components (posixpath).\<close>

definition path_join :: "path \<Rightarrow> string \<Rightarrow> path" where
  "path_join a b =
     (if b \<noteq> [] \<and> hd b = CHR ''/'' then b
      else if a = [] \<or> last a = CHR ''/'' then a @ b
      else a @ ''/'' @ b)"

text \<open>\<^verbatim>\<open>os.makedirs(p, exist_ok=True)\<close>.\<close>

definition os_makedirs :: "env \<Rightarrow> path \<Rightarrow> world \<Rightarrow> exn option \<times> world" where
  "os_makedirs env p w =
     (let w1 = emit (Makedirs p) w in
      if p \<in> dirs w then (None, w1)
      else (case mkdir_error env w p of
              Some e \<Rightarrow> (Some e, w1)
            | None \<Rightarrow> (None, w1\<lparr>dirs := insert p (dirs w1)\<rparr>)))"

section \<open>Audio acquisition: \<^verbatim>\<open>download_youtube_audio\<close>\<close>

text \<open>The body of the \<^verbatim>\<open>try\<close> (lines 86-103).\<close>

definition download_body :: "env \<Rightarrow> string \<Rightarrow> path \<Rightarrow> world \<Rightarrow> (exn + path) \<times> world" where
  "download_body env video_id output_path w =
     (case os_makedirs env output_path w of
        (Some e, w1) \<Rightarrow> (Inl e, w1)
      | (None, w1) \<Rightarrow>
          (let audio_file_path = path_join output_path (video_id @ ''.mp3'') in
           if path_exists w1 audio_file_path
           then (Inr audio_file_path, emit (Print (MsgSkipDownload video_id)) w1)
           else
             (let url = ''https://www.youtube.com/watch?v='' @ video_id;
                  outtmpl = path_join output_path (video_id @ ''.%(ext)s'');
                  w2 = emit (YdlDownload url outtmpl) w1;
                  w3 = (case snd (ydl_download env w1 url outtmpl) of
                          None \<Rightarrow> w2
                        | Some c \<Rightarrow> w2\<lparr>files := (files w2)(audio_file_path \<mapsto> c)\<rparr>)
              in case fst (ydl_download env w1 url outtmpl) of
                   Some e \<Rightarrow> (Inl e, w3)
                 | None \<Rightarrow> (Inr audio_file_path, w3))))"

text \<open>The function with its \<^verbatim>\<open>except Exception\<close> handler (lines 104-106).\<close>

definition download_youtube_audio :: "env \<Rightarrow> string \<Rightarrow> path \<Rightarrow> world \<Rightarrow> path option \<times> world" where
  "download_youtube_audio env video_id output_path w =
     (case download_body env video_id output_path
             (emit (Call_download_youtube_audio video_id output_path) w) of
        (Inl e, w') \<Rightarrow> (None, emit (Print (MsgDownloadError video_id e)) w')
      | (Inr p, w') \<Rightarrow> (Some p, w'))"

section \<open>Transcription: \<^verbatim>\<open>transcribe_audio_and_save_to_txt\<close>\<close>

text \<open>Lines 114-120.\<close>

definition select_device :: "env \<Rightarrow> int \<Rightarrow> world \<Rightarrow> (exn + device) \<times> world" where
  "select_device env gpu_id w =
     (if cuda_is_available env w then
        (let w1 = emit (CudaSetDevice gpu_id) w in
         case cuda_set_device env w gpu_id of
           Some e \<Rightarrow> (Inl e, w1)
         | None \<Rightarrow>
             (let w2 = emit (CudaGetDeviceName gpu_id) w1 in
              case cuda_get_device_name env w1 gpu_id of
                Inl e \<Rightarrow> (Inl e, w2)
              | Inr name \<Rightarrow> (Inr (Cuda gpu_id), emit (Print (MsgUsingGpu name)) w2)))
      else (Inr Cpu, emit (Print MsgCudaNotAvailable) w))"

text \<open>
  The UTF-8 encoding of a code point and of a text, as the \<^verbatim>\<open>utf-8\<close> codec with strict error
  handling does it: a surrogate (\<^verbatim>\<open>U+D800\<close> to \<^verbatim>\<open>U+DFFF\<close>) cannot be encoded.
\<close>

definition utf8_encode_cp :: "nat \<Rightarrow> string option" where
  "utf8_encode_cp n =
     (if n < 0x80 then Some [char_of n]
      else if n < 0x800 then Some [char_of (0xC0 + n div 0x40), char_of (0x80 + n mod 0x40)]
      else if 0xD800 \<le> n \<and> n < 0xE000 then None
      else if n < 0x10000
      then Some [char_of (0xE0 + n div 0x1000), char_of (0x80 + n div 0x40 mod 0x40),
                 char_of (0x80 + n mod 0x40)]
      else if n < 0x110000
      then Some [char_of (0xF0 + n div 0x40000), char_of (0x80 + n div 0x1000 mod 0x40),
                 char_of (0x80 + n div 0x40 mod 0x40), char_of (0x80 + n mod 0x40)]
      else None)"

fun utf8_encode :: "nat list \<Rightarrow> string option" where
  "utf8_encode [] = Some []"
| "utf8_encode (cp # cps) =
     (case utf8_encode_cp cp of
        None \<Rightarrow> None
      | Some bs \<Rightarrow> (case utf8_encode cps of None \<Rightarrow> None | Some rest \<Rightarrow> Some (bs @ rest)))"

text \<open>
  \<^verbatim>\<open>file.write\<close> appends bytes to a file opened with mode \<^verbatim>\<open>"w"\<close>. The loop of lines
  130-131 writes \<^verbatim>\<open>f"{segment['text']}\\n"\<close> for each segment through a file opened with
  \<^verbatim>\<open>encoding="utf-8"\<close> (on POSIX the newline character is written as it is): each call
  encodes its whole argument first, and raises with nothing of it written when that
  fails; what earlier calls wrote stays in the file.
\<close>

definition file_write :: "path \<Rightarrow> string \<Rightarrow> world \<Rightarrow> world" where
  "file_write p data w =
     w\<lparr>files := (files w)(p \<mapsto> (case files w p of None \<Rightarrow> data | Some c \<Rightarrow> c @ data))\<rparr>"

fun write_segments :: "path \<Rightarrow> segment list \<Rightarrow> world \<Rightarrow> exn option \<times> world" where
  "write_segments p [] w = (None, w)"
| "write_segments p (s # segments) w =
     (case utf8_encode (seg_text s @ [0x0A]) of
        None \<Rightarrow> (Some UnicodeEncodeError, w)
      | Some bytes \<Rightarrow> write_segments p segments (file_write p bytes w))"

text \<open>The body of the \<^verbatim>\<open>try\<close> (lines 110-133).\<close>

definition transcribe_body ::
  "env \<Rightarrow> path \<Rightarrow> string \<Rightarrow> string option \<Rightarrow> path \<Rightarrow> bool \<Rightarrow> int \<Rightarrow> world \<Rightarrow> (exn + path) \<times> world" where
  "transcribe_body env audio_file video_id language_code output_path auto_detect_language gpu_id w =
     (let transcript_file_path = path_join output_path (video_id @ ''_transcription.txt'') in
      if path_exists w transcript_file_path
      then (Inr transcript_file_path, emit (Print (MsgSkipTranscription video_id)) w)
      else
        (case select_device env gpu_id w of
           (Inl e, w1) \<Rightarrow> (Inl e, w1)
         | (Inr dev, w1) \<Rightarrow>
             (let w2 = emit (Print MsgLoadingModel) w1;
                  w3 = emit (LoadModel ''large'' dev) w2
              in case load_model env w2 ''large'' dev of
                   Some e \<Rightarrow> (Inl e, w3)
                 | None \<Rightarrow>
                     (let arg = (if auto_detect_language then NoLanguageArg
                                 else LanguageArg language_code);
                          w4 = emit (Print (if auto_detect_language then MsgAutoDetect video_id
                                            else MsgSpecifiedLanguage language_code video_id)) w3;
                          w5 = emit (ModelTranscribe audio_file arg) w4
                      in case model_transcribe env w4 audio_file arg of
                           Inl e \<Rightarrow> (Inl e, w5)
                         | Inr segments \<Rightarrow>
                             (let w6 = emit (OpenWrite transcript_file_path) w5
                              in case open_error env w5 transcript_file_path of
                                   Some e \<Rightarrow> (Inl e, w6)
                                 | None \<Rightarrow>
                                     (case write_segments transcript_file_path segments
                                            (w6\<lparr>files := (files w6)(transcript_file_path \<mapsto> [])\<rparr>) of
                                        (Some e, w7) \<Rightarrow> (Inl e, w7)
                                      | (None, w7) \<Rightarrow>
                                          (Inr transcript_file_path,
                                           emit (Print (MsgTranscriptSaved video_id
                                                   transcript_file_path)) w7)))))))"

text \<open>The function with its \<^verbatim>\<open>except Exception\<close> handler (lines 134-136).\<close>

definition transcribe_audio_and_save_to_txt ::
  "env \<Rightarrow> path \<Rightarrow> string \<Rightarrow> string option \<Rightarrow> path \<Rightarrow> bool \<Rightarrow> int \<Rightarrow> world \<Rightarrow> path option \<times> world" where
  "transcribe_audio_and_save_to_txt env audio_file video_id language_code output_path
       auto_detect_language gpu_id w =
     (case transcribe_body env audio_file video_id language_code output_path
             auto_detect_language gpu_id
             (emit (Call_transcribe_audio_and_save_to_txt audio_file video_id language_code
                      output_path auto_detect_language gpu_id) w) of
        (Inl e, w') \<Rightarrow> (None, emit (Print (MsgTranscribeError video_id e)) w')
      | (Inr p, w') \<Rightarrow> (Some p, w'))"

section \<open>The batch loop of \<^verbatim>\<open>main\<close> (lines 211-225)\<close>

text \<open>
  One iteration: the body of the \<^verbatim>\<open>for\<close>, with its \<^verbatim>\<open>try\<close>/\<^verbatim>\<open>except\<close>. The result is
  \<open>True\<close> when both steps returned a path and \<open>False\<close> when the handler ran (the identifier
  is then appended to \<^verbatim>\<open>failed_videos\<close>). \<^verbatim>\<open>not audio_file\<close> holds of \<^verbatim>\<open>None\<close> and of the
  empty string.
\<close>

definition process_video ::
  "env \<Rightarrow> string option \<Rightarrow> path \<Rightarrow> bool \<Rightarrow> int \<Rightarrow> nat \<Rightarrow> nat \<Rightarrow> string \<Rightarrow> world \<Rightarrow> bool \<times> world" where
  "process_video env language_code output_path auto_detect_language gpu_id num_videos idx video_id w =
     (case download_youtube_audio env video_id output_path
             (emit (Print (MsgProcessing idx num_videos video_id)) w) of
        (audio_file, w2) \<Rightarrow>
          if audio_file = None \<or> audio_file = Some []
          then (False, emit (Print (MsgErrorForVideo video_id
                  (Exception (''Audio download failed for video ID: '' @ video_id)))) w2)
          else
            (case transcribe_audio_and_save_to_txt env (the audio_file) video_id language_code
                    output_path auto_detect_language gpu_id w2 of
               (transcript_file, w3) \<Rightarrow>
                 if transcript_file = None
                 then (False, emit (Print (MsgErrorForVideo video_id
                         (Exception (''Transcription failed or was skipped for video ID: ''
                            @ video_id)))) w3)
                 else (True, w3)))"

fun process_videos ::
  "env \<Rightarrow> string option \<Rightarrow> path \<Rightarrow> bool \<Rightarrow> int \<Rightarrow> nat \<Rightarrow> nat \<Rightarrow> string list \<Rightarrow> string list
     \<Rightarrow> world \<Rightarrow> string list \<times> world" where
  "process_videos env language_code output_path auto_detect_language gpu_id num_videos idx []
       failed_videos w = (failed_videos, w)"
| "process_videos env language_code output_path auto_detect_language gpu_id num_videos idx
       (video_id # rest) failed_videos w =
     (case process_video env language_code output_path auto_detect_language gpu_id num_videos idx
             video_id w of
        (ok, w') \<Rightarrow>
          process_videos env language_code output_path auto_detect_language gpu_id num_videos
            (Suc idx) rest (if ok then failed_videos else failed_videos @ [video_id]) w')"

section \<open>Reading a text file line by line\<close>

text \<open>
  A file opened in text mode with the default \<^verbatim>\<open>newline=None\<close> reads with universal
  newlines: \<^verbatim>\<open>\\r\\n\<close> and a lone \<^verbatim>\<open>\\r\<close> become \<^verbatim>\<open>\\n\<close>. Iterating over it yields its
  lines, each with its terminating \<^verbatim>\<open>\\n\<close> (the last line has none when the file does not
  end with a line break).
\<close>

fun universal_newlines :: "string \<Rightarrow> string" where
  "universal_newlines [] = []"
| "universal_newlines [c] = (if c = CHR 0x0D then [CHR 0x0A] else [c])"
| "universal_newlines (c # d # cs) =
     (if c = CHR 0x0D \<and> d = CHR 0x0A then CHR 0x0A # universal_newlines cs
      else if c = CHR 0x0D then CHR 0x0A # universal_newlines (d # cs)
      else c # universal_newlines (d # cs))"

fun split_lines :: "string \<Rightarrow> string list" where
  "split_lines [] = []"
| "split_lines (c # cs) =
     (if c = CHR 0x0A then [c] # split_lines cs
      else (case split_lines cs of [] \<Rightarrow> [[c]] | l # ls \<Rightarrow> (c # l) # ls))"

definition file_lines :: "string \<Rightarrow> string list" where
  "file_lines content = split_lines (universal_newlines content)"

section \<open>Metadata: \<^verbatim>\<open>get_video_info\<close>\<close>

text \<open>
  The response of the service is parsed JSON. \<open>dict_get\<close> is \<^verbatim>\<open>d.get(k, default)\<close>,
  \<open>getitem\<close> is \<^verbatim>\<open>d[k]\<close> with a string key, \<open>py_iter\<close> is what a \<^verbatim>\<open>for\<close> loop iterates
  over. The keys of a \<open>JObj\<close> are taken to be distinct, as in a Python \<^verbatim>\<open>dict\<close>.
\<close>

fun dict_get :: "json \<Rightarrow> string \<Rightarrow> json \<Rightarrow> exn + json" where
  "dict_get (JObj kvs) k d = Inr (case map_of kvs k of None \<Rightarrow> d | Some v \<Rightarrow> v)"
| "dict_get _ k d = Inl AttributeError"

fun getitem :: "json \<Rightarrow> string \<Rightarrow> exn + json" where
  "getitem (JObj kvs) k = (case map_of kvs k of None \<Rightarrow> Inl (KeyError k) | Some v \<Rightarrow> Inr v)"
| "getitem _ k = Inl TypeError"

fun py_iter :: "json \<Rightarrow> exn + json list" where
  "py_iter (JArr xs) = Inr xs"
| "py_iter (JObj kvs) = Inr (map (\<lambda>kv. JStr (fst kv)) kvs)"
| "py_iter (JStr s) = Inr (map (\<lambda>c. JStr [c]) s)"
| "py_iter _ = Inl TypeError"

text \<open>The dictionary display of lines 64-69, evaluated left to right.\<close>

definition make_video_info :: "json \<Rightarrow> exn + video_info" where
  "make_video_info item =
     (case getitem item ''id'' of Inl e \<Rightarrow> Inl e | Inr i \<Rightarrow>
     (case getitem item ''snippet'' of Inl e \<Rightarrow> Inl e | Inr s1 \<Rightarrow>
     (case getitem s1 ''title'' of Inl e \<Rightarrow> Inl e | Inr t \<Rightarrow>
     (case getitem item ''snippet'' of Inl e \<Rightarrow> Inl e | Inr s2 \<Rightarrow>
     (case getitem s2 ''publishedAt'' of Inl e \<Rightarrow> Inl e | Inr p \<Rightarrow>
     (case getitem item ''contentDetails'' of Inl e \<Rightarrow> Inl e | Inr cd \<Rightarrow>
     (case getitem cd ''duration'' of Inl e \<Rightarrow> Inl e | Inr d \<Rightarrow>
        Inr \<lparr>vi_id = i, vi_title = t, vi_publishedAt = p, vi_duration = d\<rparr>)))))))"

text \<open>The inner \<^verbatim>\<open>for item in ...\<close> (lines 63-70): entries appended before a raise stay.\<close>

fun append_items :: "json list \<Rightarrow> video_info list \<Rightarrow> exn option \<times> video_info list" where
  "append_items [] video_info_list = (None, video_info_list)"
| "append_items (item # items) video_info_list =
     (case make_video_info item of
        Inl e \<Rightarrow> (Some e, video_info_list)
      | Inr video_info \<Rightarrow> append_items items (video_info_list @ [video_info]))"

text \<open>\<^verbatim>\<open>",".join(chunk)\<close>.\<close>

fun join_comma :: "string list \<Rightarrow> string" where
  "join_comma [] = []"
| "join_comma [x] = x"
| "join_comma (x # y # ys) = x @ '','' @ join_comma (y # ys)"

text \<open>One iteration of the outer loop: the \<^verbatim>\<open>try\<close>/\<^verbatim>\<open>except\<close> of lines 57-72.\<close>

definition fetch_chunk ::
  "env \<Rightarrow> string list \<Rightarrow> video_info list \<Rightarrow> world \<Rightarrow> video_info list \<times> world" where
  "fetch_chunk env chunk video_info_list w =
     (let w1 = emit (ApiExecute ''snippet,contentDetails'' (join_comma chunk)) w in
      case api_execute env w ''snippet,contentDetails'' (join_comma chunk) of
        Inl e \<Rightarrow> (video_info_list, emit (Print (MsgFetchError e)) w1)
      | Inr response \<Rightarrow>
          (case dict_get response ''items'' (JArr []) of
             Inl e \<Rightarrow> (video_info_list, emit (Print (MsgFetchError e)) w1)
           | Inr its \<Rightarrow>
               (case py_iter its of
                  Inl e \<Rightarrow> (video_info_list, emit (Print (MsgFetchError e)) w1)
                | Inr items \<Rightarrow>
                    (case append_items items video_info_list of
                       (Some e, vil) \<Rightarrow> (vil, emit (Print (MsgFetchError e)) w1)
                     | (None, vil) \<Rightarrow> (vil, w1)))))"

text \<open>\<^verbatim>\<open>for i in range(0, len(video_ids), 50): chunk = video_ids[i:i+50]\<close>.\<close>

function get_video_info_loop ::
  "env \<Rightarrow> string list \<Rightarrow> nat \<Rightarrow> video_info list \<Rightarrow> world \<Rightarrow> video_info list \<times> world" where
  "get_video_info_loop env video_ids i video_info_list w =
     (if i < length video_ids
      then (case fetch_chunk env (take 50 (drop i video_ids)) video_info_list w of
              (vil, w') \<Rightarrow> get_video_info_loop env video_ids (i + 50) vil w')
      else (video_info_list, w))"
  by pat_completeness auto
termination
  by (relation "measure (\<lambda>(env, video_ids, i, vil, w). length video_ids - i)") auto

declare get_video_info_loop.simps [simp del]

text \<open>\<^verbatim>\<open>build\<close> (line 53) is outside the \<^verbatim>\<open>try\<close>: its exception leaves the function.\<close>

definition get_video_info ::
  "env \<Rightarrow> string list \<Rightarrow> string \<Rightarrow> world \<Rightarrow> (exn + video_info list) \<times> world" where
  "get_video_info env video_ids api_key w =
     (let w1 = emit (ApiBuild api_key) w in
      case api_build env w api_key of
        Some e \<Rightarrow> (Inl e, w1)
      | None \<Rightarrow> (case get_video_info_loop env video_ids 0 [] w1 of
                   (vil, w2) \<Rightarrow> (Inr vil, w2)))"

text \<open>
  The partition the specification describes: consecutive chunks of at most \<open>n\<close>
  identifiers.
\<close>

function spec_chunks :: "nat \<Rightarrow> 'a list \<Rightarrow> 'a list list" where
  "spec_chunks n xs =
     (if n = 0 \<or> xs = [] then [] else take n xs # spec_chunks n (drop n xs))"
  by pat_completeness auto
termination
  by (relation "measure (\<lambda>(n, xs). length xs)") auto

declare spec_chunks.simps [simp del]

text \<open>The requests recorded in a trace, and what a chunk with a given answer contributes.\<close>

fun api_requests :: "event list \<Rightarrow> (string \<times> string) list" where
  "api_requests [] = []"
| "api_requests (ApiExecute part ids # es) = (part, ids) # api_requests es"
| "api_requests (_ # es) = api_requests es"

fun fetch_errors :: "event list \<Rightarrow> exn list" where
  "fetch_errors [] = []"
| "fetch_errors (Print (MsgFetchError e) # es) = e # fetch_errors es"
| "fetch_errors (_ # es) = fetch_errors es"

definition chunk_contribution :: "exn + json \<Rightarrow> video_info list" where
  "chunk_contribution answer =
     (case answer of
        Inl e \<Rightarrow> []
      | Inr response \<Rightarrow>
          (case dict_get response ''items'' (JArr []) of
             Inl e \<Rightarrow> []
           | Inr its \<Rightarrow> (case py_iter its of
                           Inl e \<Rightarrow> []
                         | Inr items \<Rightarrow> snd (append_items items []))))"

section \<open>The identifier source: \<^verbatim>\<open>read_video_ids_from_file\<close>\<close>

text \<open>
  \<^verbatim>\<open>str.strip()\<close> removes leading and trailing whitespace; a \<open>char\<close> stands for a code point
  below 256, of which these are the whitespace ones.
\<close>

definition py_isspace :: "char \<Rightarrow> bool" where
  "py_isspace c = ((of_char c :: nat) \<in> {9, 10, 11, 12, 13, 28, 29, 30, 31, 32, 133, 160})"

definition strip :: "string \<Rightarrow> string" where
  "strip s = rev (dropWhile py_isspace (rev (dropWhile py_isspace s)))"

definition read_video_ids_from_file :: "env \<Rightarrow> path \<Rightarrow> world \<Rightarrow> string list \<times> world" where
  "read_video_ids_from_file env file_path w =
     (let w1 = emit (OpenRead file_path) w in
      case open_error env w file_path of
        Some e \<Rightarrow> ([], emit (Print (MsgReadError e)) w1)
      | None \<Rightarrow>
          (case files w file_path of
             None \<Rightarrow> ([], emit (Print (MsgReadError (OSError ''No such file or directory''))) w1)
           | Some content \<Rightarrow>
               (case decode_text env content of
                  Inl e \<Rightarrow> ([], emit (Print (MsgReadError e)) w1)
                | Inr text \<Rightarrow>
                    ([strip line. line \<leftarrow> file_lines text, strip line \<noteq> []], w1))))"

section \<open>\<^verbatim>\<open>main\<close>\<close>

record args =
  args_video_ids_file :: "string option"
  args_api_key :: "string option"
  args_output_path :: string
  args_language :: "string option"
  args_gpu_id :: int

text \<open>
  How the process ends: \<^verbatim>\<open>main\<close> returns, \<^verbatim>\<open>sys.exit(n)\<close> is called, or an exception
  leaves \<^verbatim>\<open>main\<close> (the interpreter prints the traceback and exits with status 1).
\<close>

datatype exit = Returned | SysExit int | Uncaught exn

fun exit_status :: "exit \<Rightarrow> int" where
  "exit_status Returned = 0"
| "exit_status (SysExit n) = n"
| "exit_status (Uncaught e) = 1"

definition languages :: "string list" where
  "languages = [''Auto-detect language'', ''Kannada'', ''Hindi'', ''Tamil'', ''Marathi'',
                ''Gujarati'', ''Punjabi'', ''Bengali'']"

definition get_language_code :: "string \<Rightarrow> string option" where
  "get_language_code selected_language =
     map_of [(''Kannada'', ''kn''), (''Hindi'', ''hi''), (''Tamil'', ''ta''), (''Marathi'', ''mr''),
             (''Gujarati'', ''gu''), (''Punjabi'', ''pa''), (''Bengali'', ''bn'')] selected_language"

text \<open>\<^verbatim>\<open>input(prompt)\<close>: the next line of standard input, or \<^verbatim>\<open>EOFError\<close>.\<close>

definition py_input :: "string \<Rightarrow> world \<Rightarrow> (exn + string) \<times> world" where
  "py_input prompt w =
     (case stdin w of
        [] \<Rightarrow> (Inl EOFError, emit (Input prompt) w)
      | l # ls \<Rightarrow> (Inr l, emit (Input prompt) (w\<lparr>stdin := ls\<rparr>)))"

text \<open>
  \<^verbatim>\<open>while not video_ids_file: video_ids_file = input(...).strip()\<close> (lines 154-155), by
  recursion on the lines standard input still holds.
\<close>

fun prompt_video_ids_file :: "string list \<Rightarrow> world \<Rightarrow> (exn + string) \<times> world" where
  "prompt_video_ids_file [] w =
     (Inl EOFError, emit (Input ''Enter path to video IDs .txt file: '') w)"
| "prompt_video_ids_file (l # ls) w =
     (let w' = emit (Input ''Enter path to video IDs .txt file: '') (w\<lparr>stdin := ls\<rparr>) in
      if strip l = [] then prompt_video_ids_file ls w' else (Inr (strip l), w'))"

text \<open>\<^verbatim>\<open>str.lower\<close> on the letters A-Z, and \<^verbatim>\<open>str.endswith\<close>.\<close>

definition lower_char :: "char \<Rightarrow> char" where
  "lower_char c =
     (if 65 \<le> (of_char c :: nat) \<and> (of_char c :: nat) \<le> 90
      then char_of ((of_char c :: nat) + 32) else c)"

definition endswith :: "string \<Rightarrow> string \<Rightarrow> bool" where
  "endswith s sfx =
     (length sfx \<le> length s \<and> drop (length s - length sfx) s = sfx)"

text \<open>The language menu (lines 171-191); \<^verbatim>\<open>not language\<close> holds of \<^verbatim>\<open>None\<close> and of \<^verbatim>\<open>''\<close>.\<close>

definition print_menu :: "world \<Rightarrow> world" where
  "print_menu w =
     foldl (\<lambda>w' (idx, lang). emit (Print (MsgLanguageOption idx lang)) w')
       (emit (Print MsgSelectLanguage) w) (zip [1 ..< Suc (length languages)] languages)"

definition choose_language :: "env \<Rightarrow> string option \<Rightarrow> world \<Rightarrow> (exn + string) \<times> world" where
  "choose_language env language w =
     (if language \<noteq> None \<and> language \<noteq> Some [] then (Inr (the language), w)
      else
        (case py_input ''Enter the number for language [3]: '' (print_menu w) of
           (Inl e, w1) \<Rightarrow> (Inl e, w1)
         | (Inr line, w1) \<Rightarrow>
             if strip line = [] then (Inr ''Hindi'', w1)
             else
               (case py_int env (strip line) of
                  None \<Rightarrow> (Inr ''Hindi'', emit (Print MsgInvalidInput) w1)
                | Some idx \<Rightarrow>
                    if 1 \<le> idx \<and> idx \<le> int (length languages)
                    then (Inr (languages ! nat (idx - 1)), w1)
                    else (Inr ''Hindi'', emit (Print MsgInvalidSelection) w1))))"

text \<open>Lines 192-199: the pair \<^verbatim>\<open>(auto_detect_language, language_code)\<close>.\<close>

definition language_mode :: "string \<Rightarrow> world \<Rightarrow> (bool \<times> string option) \<times> world" where
  "language_mode language w =
     (if language = ''Auto-detect language''
      then ((True, None), emit (Print MsgSelectedAuto) w)
      else ((False, get_language_code language), emit (Print (MsgSelectedLanguage language)) w))"

text \<open>
  Lines 201-226, once the configuration is resolved: read the identifiers, fetch the
  metadata, run the loop, print the summary.
\<close>

definition run_batch ::
  "env \<Rightarrow> args \<Rightarrow> path \<Rightarrow> string \<Rightarrow> bool \<Rightarrow> string option \<Rightarrow> world \<Rightarrow> exit \<times> world" where
  "run_batch env args video_ids_file api_key auto_detect_language language_code w =
     (case read_video_ids_from_file env video_ids_file w of
        (video_ids, w1) \<Rightarrow>
          if video_ids = [] then (SysExit 1, emit (Print MsgNoVideoIds) w1)
          else
            (case get_video_info env video_ids api_key
                    (emit (Print (MsgFound (length video_ids))) w1) of
               (Inl e, w2) \<Rightarrow> (Uncaught e, w2)
             | (Inr video_info_list, w2) \<Rightarrow>
                 (case process_videos env language_code (args_output_path args)
                         auto_detect_language (args_gpu_id args) (length video_ids) 1 video_ids []
                         (if video_info_list \<noteq> []
                          then emit (Print (MsgVideoInfoFetched (length video_info_list))) w2
                          else w2) of
                    (failed_videos, w3) \<Rightarrow>
                      (Returned, emit (Print (MsgProcessingComplete failed_videos)) w3))))"

text \<open>
  \<^verbatim>\<open>main\<close>. \<^verbatim>\<open>parse_args\<close> rejects a \<^verbatim>\<open>--language\<close> outside \<^verbatim>\<open>choices\<close> with status 2;
  \<^verbatim>\<open>args.api_key or os.getenv("YT_API_KEY")\<close> takes the variable when the option is absent
  or empty.
\<close>

definition main :: "env \<Rightarrow> args \<Rightarrow> world \<Rightarrow> exit \<times> world" where
  "main env args w =
     (if args_language args \<noteq> None \<and> the (args_language args) \<notin> set languages
      then (SysExit 2, w)
      else
        (case (if args_video_ids_file args = None \<or> args_video_ids_file args = Some []
               then prompt_video_ids_file (stdin w) w
               else (Inr (the (args_video_ids_file args)), w)) of
           (Inl e, w1) \<Rightarrow> (Uncaught e, w1)
         | (Inr video_ids_file, w1) \<Rightarrow>
             if \<not> endswith (map lower_char video_ids_file) ''.txt''
             then (SysExit 1, emit (Print MsgMustBeTxt) w1)
             else if \<not> path_exists w1 video_ids_file
             then (SysExit 1, emit (Print (MsgFileNotFound video_ids_file)) w1)
             else
               (let api_key = (if args_api_key args \<noteq> None \<and> args_api_key args \<noteq> Some []
                               then args_api_key args else getenv env ''YT_API_KEY'')
                in if api_key = None \<or> api_key = Some []
                   then (SysExit 1, emit (Print MsgApiKeyRequired) w1)
                   else
                     (case choose_language env (args_language args) w1 of
                        (Inl e, w2) \<Rightarrow> (Uncaught e, w2)
                      | (Inr language, w2) \<Rightarrow>
                          (case language_mode language w2 of
                             ((auto_detect_language, language_code), w3) \<Rightarrow>
                               run_batch env args video_ids_file (the api_key)
                                 auto_detect_language language_code w3)))))"

section \<open>Reading a trace\<close>

text \<open>
  The identifiers for which \<^verbatim>\<open>download_youtube_audio\<close> resp.
  \<^verbatim>\<open>transcribe_audio_and_save_to_txt\<close> was entered, in order; the events of the per-item
  pipeline; the calls of the downloader and of the inference engine; and whether a call of
  the transcription step has exactly one language mode.
\<close>

fun download_calls :: "event list \<Rightarrow> string list" where
  "download_calls [] = []"
| "download_calls (Call_download_youtube_audio v out # es) = v # download_calls es"
| "download_calls (_ # es) = download_calls es"

fun transcribe_calls :: "event list \<Rightarrow> string list" where
  "transcribe_calls [] = []"
| "transcribe_calls (Call_transcribe_audio_and_save_to_txt a v lc out au g # es) =
     v # transcribe_calls es"
| "transcribe_calls (_ # es) = transcribe_calls es"

fun is_pipeline_event :: "event \<Rightarrow> bool" where
  "is_pipeline_event (Call_download_youtube_audio v out) = True"
| "is_pipeline_event (Call_transcribe_audio_and_save_to_txt a v lc out au g) = True"
| "is_pipeline_event (Makedirs p) = True"
| "is_pipeline_event (YdlDownload url tmpl) = True"
| "is_pipeline_event (CudaSetDevice g) = True"
| "is_pipeline_event (CudaGetDeviceName g) = True"
| "is_pipeline_event (LoadModel m d) = True"
| "is_pipeline_event (ModelTranscribe a l) = True"
| "is_pipeline_event (OpenWrite p) = True"
| "is_pipeline_event _ = False"

fun is_download_or_inference :: "event \<Rightarrow> bool" where
  "is_download_or_inference (YdlDownload url tmpl) = True"
| "is_download_or_inference (LoadModel m d) = True"
| "is_download_or_inference (ModelTranscribe a l) = True"
| "is_download_or_inference _ = False"

fun one_language_mode :: "event \<Rightarrow> bool" where
  "one_language_mode (Call_transcribe_audio_and_save_to_txt a v lc out au g) =
     (if au then lc = None else lc \<noteq> None)"
| "one_language_mode _ = True"


text \<open>
  A later world \<open>w'\<close> of a run that started in \<open>w\<close>: no file and no directory of \<open>w\<close> was
  removed or changed, standard input was not read, and the trace was only extended.
\<close>

definition grows :: "world \<Rightarrow> world \<Rightarrow> bool" where
  "grows w w' = (files w \<subseteq>\<^sub>m files w' \<and> dirs w \<subseteq> dirs w' \<and> stdin w' = stdin w \<and>
                 (\<exists>evs. trace w' = trace w @ evs))"

section \<open>Concrete collaborators and worlds\<close>

text \<open>
  \<open>env_ok\<close>: every collaborator succeeds, there is no GPU, the download leaves a file,
  and the engine returns the three segments \<open>(0, a)\<close>, \<open>(2, b)\<close>, \<open>(5, c)\<close> when the audio
  file is there and raises when it is not (\<open>0x61\<close> is the code point of \<open>a\<close>).
  \<open>env_two_lines\<close>: the engine returns one segment whose text is \<open>a\<close>, a newline, \<open>b\<close>.
  \<open>env_hindi\<close>: the engine returns one segment whose text is the Devanagari letter
  \<^verbatim>\<open>U+0915\<close>.
  \<open>env_raise\<close>: every collaborator raises. \<open>env_no_speech\<close>: the engine raises.
  \<open>env_no_file\<close>: the downloader returns without raising and without leaving a file.
  \<open>env_b_fails\<close>: the downloader raises for the identifier \<open>b\<close> and succeeds otherwise.
  \<open>world0\<close>: an empty disk. \<open>world_dir\<close>: an empty output directory \<open>out\<close>.
  \<open>world_audio\<close>: the audio of \<open>x\<close> is in \<open>out\<close>. \<open>world_done\<close>: both artifacts of
  \<open>x\<close> are in \<open>out\<close>.
\<close>

definition abc_segments :: "segment list" where
  "abc_segments =
     [\<lparr>seg_text = [0x61], seg_start = 0, seg_end = 2\<rparr>,
      \<lparr>seg_text = [0x62], seg_start = 2, seg_end = 5\<rparr>,
      \<lparr>seg_text = [0x63], seg_start = 5, seg_end = 7\<rparr>]"

definition env_ok :: env where
  "env_ok = \<lparr>
     mkdir_error = (\<lambda>w p. None),
     ydl_download = (\<lambda>w url tmpl. (None, Some ''audio'')),
     cuda_is_available = (\<lambda>w. False),
     cuda_set_device = (\<lambda>w g. None),
     cuda_get_device_name = (\<lambda>w g. Inr ''gpu''),
     load_model = (\<lambda>w m d. None),
     model_transcribe = (\<lambda>w p a. case files w p of
                                      None \<Rightarrow> Inl (External ''Failed to load audio'')
                                    | Some c \<Rightarrow> Inr abc_segments),
     open_error = (\<lambda>w p. None),
     decode_text = (\<lambda>bytes. Inr bytes),
     api_build = (\<lambda>w k. None),
     api_execute = (\<lambda>w part ids. Inr (JObj [])),
     py_int = (\<lambda>s. None),
     getenv = (\<lambda>k. None)\<rparr>"

definition env_raise :: env where
  "env_raise = \<lparr>
     mkdir_error = (\<lambda>w p. Some (OSError ''mkdir'')),
     ydl_download = (\<lambda>w url tmpl. (Some (External ''download''), None)),
     cuda_is_available = (\<lambda>w. False),
     cuda_set_device = (\<lambda>w g. Some (External ''cuda'')),
     cuda_get_device_name = (\<lambda>w g. Inl (External ''cuda'')),
     load_model = (\<lambda>w m d. Some (External ''load'')),
     model_transcribe = (\<lambda>w p a. Inl (External ''transcribe'')),
     open_error = (\<lambda>w p. Some (OSError ''open'')),
     decode_text = (\<lambda>bytes. Inl UnicodeDecodeError),
     api_build = (\<lambda>w k. Some (External ''build'')),
     api_execute = (\<lambda>w part ids. Inl (External ''execute'')),
     py_int = (\<lambda>s. None),
     getenv = (\<lambda>k. None)\<rparr>"

definition world0 :: world where
  "world0 = \<lparr>files = Map.empty, dirs = {}, stdin = [], trace = []\<rparr>"

definition world_done :: world where
  "world_done =
     \<lparr>files = [''out/x.mp3'' \<mapsto> ''junk'', ''out/x_transcription.txt'' \<mapsto> ''old''],
      dirs = {''out''}, stdin = [], trace = []\<rparr>"

definition world_dir :: world where
  "world_dir = \<lparr>files = Map.empty, dirs = {''out''}, stdin = [], trace = []\<rparr>"

definition world_audio :: world where
  "world_audio =
     \<lparr>files = [''out/x.mp3'' \<mapsto> ''audio''], dirs = {''out''}, stdin = [], trace = []\<rparr>"

definition env_no_speech :: env where
  "env_no_speech = env_ok\<lparr>model_transcribe := (\<lambda>w p a. Inl (External ''transcribe''))\<rparr>"

definition env_no_file :: env where
  "env_no_file = env_ok\<lparr>ydl_download := (\<lambda>w url tmpl. (None, None))\<rparr>"

definition env_two_lines :: env where
  "env_two_lines = env_ok\<lparr>model_transcribe :=
     (\<lambda>w p a. Inr [\<lparr>seg_text = [0x61, 0x0A, 0x62], seg_start = 0, seg_end = 2\<rparr>])\<rparr>"

definition env_hindi :: env where
  "env_hindi = env_ok\<lparr>model_transcribe :=
     (\<lambda>w p a. Inr [\<lparr>seg_text = [0x915], seg_start = 0, seg_end = 2\<rparr>])\<rparr>"

definition env_b_fails :: env where
  "env_b_fails = env_ok\<lparr>ydl_download :=
     (\<lambda>w url tmpl. if url = ''https://www.youtube.com/watch?v=b''
                     then (Some (External ''unavailable''), None)
                     else (None, Some ''audio''))\<rparr>"

text \<open>
  \<open>quiet w w'\<close>: between \<open>w\<close> and \<open>w'\<close> no file and no directory changed and no event of
  the per-item pipeline happened.
\<close>

definition quiet :: "world \<Rightarrow> world \<Rightarrow> bool" where
  "quiet w w' = (files w' = files w \<and> dirs w' = dirs w \<and>
                 (\<exists>evs. trace w' = trace w @ evs \<and> filter is_pipeline_event evs = []))"

text \<open>
  What \<^verbatim>\<open>argparse\<close> lets through for \<^verbatim>\<open>--language\<close> (\<^verbatim>\<open>choices\<close>, line 146): the option is
  absent or one of the listed names.
\<close>

definition valid_language_arg :: "args \<Rightarrow> bool" where
  "valid_language_arg args =
     (args_language args = None \<or> the (args_language args) \<in> set languages)"

text \<open>
  The language settings of the Streamlit front end (\<^verbatim>\<open>youtube_whisper_transcript.py\<close>,
  lines 211-227): the pair \<^verbatim>\<open>(selected_language, language_code)\<close> for a state of the
  check box and a choice of the select box.
\<close>

definition streamlit_language_settings :: "bool \<Rightarrow> string \<Rightarrow> string option \<times> string option" where
  "streamlit_language_settings auto_detect_language selected =
     (if \<not> auto_detect_language then (Some selected, get_language_code selected)
      else (None, None))"

text \<open>
  Command lines and a disk for \<^verbatim>\<open>main\<close>: \<open>args_ok\<close> names the identifier file
  \<^verbatim>\<open>ids.txt\<close>, a key, the output directory \<^verbatim>\<open>out\<close> and the language Hindi; \<open>args_csv\<close>
  names a file with another extension, \<open>args_no_key\<close> gives no key, \<open>args_no_file\<close> no
  file, \<open>args_auto\<close> asks for language detection. \<open>world_ids content\<close> is a disk that
  holds \<^verbatim>\<open>ids.txt\<close> with the given content and nothing else.
\<close>

definition args_ok :: args where
  "args_ok = \<lparr>args_video_ids_file = Some ''ids.txt'', args_api_key = Some ''key'',
              args_output_path = ''out'', args_language = Some ''Hindi'', args_gpu_id = 0\<rparr>"

definition args_csv :: args where
  "args_csv = args_ok\<lparr>args_video_ids_file := Some ''ids.csv''\<rparr>"

definition args_no_key :: args where
  "args_no_key = args_ok\<lparr>args_api_key := None\<rparr>"

definition args_no_file :: args where
  "args_no_file = args_ok\<lparr>args_video_ids_file := None\<rparr>"

definition args_auto :: args where
  "args_auto = args_ok\<lparr>args_language := Some ''Auto-detect language''\<rparr>"

definition world_ids :: "string \<Rightarrow> world" where
  "world_ids content = \<lparr>files = [''ids.txt'' \<mapsto> content], dirs = {}, stdin = [], trace = []\<rparr>"

section \<open>Basic facts\<close>

lemma trace_emit [simp]: "trace (emit e w) = trace w @ [e]"
  and files_emit [simp]: "files (emit e w) = files w"
  and dirs_emit [simp]: "dirs (emit e w) = dirs w"
  and stdin_emit [simp]: "stdin (emit e w) = stdin w"
  by (simp_all add: emit_def)

lemma path_exists_emit [simp]: "path_exists (emit e w) p = path_exists w p"
  by (simp add: path_exists_def)

lemma new_events_append: "trace w' = trace w @ evs \<Longrightarrow> new_events w w' = evs"
  by (simp add: new_events_def)

lemma write_segments_frame [simp]:
  "trace (snd (write_segments p segs w)) = trace w"
  "dirs (snd (write_segments p segs w)) = dirs w"
  "stdin (snd (write_segments p segs w)) = stdin w"
  by (induction segs arbitrary: w) (simp_all add: file_write_def split: option.splits)

lemma files_write_segments_other:
  "q \<noteq> p \<Longrightarrow> files (snd (write_segments p segs w)) q = files w q"
  by (induction segs arbitrary: w) (simp_all add: file_write_def split: option.splits)

lemma utf8_encode_snoc_lf:
  "utf8_encode (cps @ [0x0A]) =
     (case utf8_encode cps of None \<Rightarrow> None | Some bs \<Rightarrow> Some (bs @ [CHR 0x0A]))"
  by (induction cps) (auto simp: utf8_encode_cp_def char_of_def bit_iff_odd split: option.splits)

lemma files_write_segments:
  "write_segments p segs w = (None, w') \<Longrightarrow> files w p = Some c \<Longrightarrow>
   (\<forall>s \<in> set segs. utf8_encode (seg_text s) \<noteq> None) \<and>
   files w' =
     (files w)(p \<mapsto> c @ concat (map (\<lambda>s. the (utf8_encode (seg_text s)) @ [CHR 0x0A]) segs))"
proof (induction segs arbitrary: w c)
  case Nil
  then show ?case by (simp add: fun_upd_idem)
next
  case (Cons s segs)
  from Cons.prems(1) obtain bs where e: "utf8_encode (seg_text s) = Some bs"
    and r: "write_segments p segs (file_write p (bs @ [CHR 0x0A]) w) = (None, w')"
    by (auto simp: utf8_encode_snoc_lf split: option.splits)
  have f: "files (file_write p (bs @ [CHR 0x0A]) w) p = Some (c @ bs @ [CHR 0x0A])"
    using Cons.prems(2) by (simp add: file_write_def)
  from Cons.IH[OF r f] show ?case using Cons.prems(2) e
    by (auto simp add: file_write_def fun_eq_iff)
qed

lemma char_of_ne:
  assumes "128 \<le> m" "m < 256" "k < 128"
  shows "char_of (m::nat) \<noteq> char_of (k::nat)"
proof
  assume "char_of m = char_of k"
  then have "of_char (char_of m) = (of_char (char_of k) :: nat)" by simp
  then have "m mod 256 = k mod 256" by (simp add: of_char_of)
  then show False using assms by simp
qed

lemma lf_char: "CHR 0x0A = char_of (10::nat)" and cr_char: "CHR 0x0D = char_of (13::nat)"
  by (simp_all add: char_of_def bit_iff_odd)

lemma char_of_inj_small:
  "k < 256 \<Longrightarrow> j < 256 \<Longrightarrow> char_of (k::nat) = char_of (j::nat) \<Longrightarrow> k = j"
  by (metis mod_less of_char_of)

lemma utf8_cp_no_newline:
  assumes "utf8_encode_cp n = Some bs" "n \<noteq> 10" "n \<noteq> 13"
  shows "CHR 0x0A \<notin> set bs \<and> CHR 0x0D \<notin> set bs"
proof -
  have a: "\<And>m. 128 \<le> m \<Longrightarrow> m < 256 \<Longrightarrow> char_of (m::nat) \<noteq> CHR 0x0A \<and> char_of m \<noteq> CHR 0x0D"
    unfolding lf_char cr_char using char_of_ne by simp
  have b: "n < 128 \<Longrightarrow> char_of n \<noteq> CHR 0x0A \<and> char_of n \<noteq> CHR 0x0D"
    unfolding lf_char cr_char
    using assms(2,3) char_of_inj_small[of n 10] char_of_inj_small[of n 13] by auto
  consider "n < 0x80" | "0x80 \<le> n" "n < 0x800" | "0x800 \<le> n" "n < 0x10000"
    | "0x10000 \<le> n" "n < 0x110000" | "0x110000 \<le> n"
    by linarith
  then show ?thesis
  proof cases
    case 1
    then show ?thesis using assms(1) b by (auto simp: utf8_encode_cp_def)
  next
    case 2
    have "char_of (0xC0 + n div 0x40) \<noteq> CHR 0x0A \<and> char_of (0xC0 + n div 0x40) \<noteq> CHR 0x0D"
      using 2 by (intro a) auto
    moreover have "char_of (0x80 + n mod 0x40) \<noteq> CHR 0x0A \<and> char_of (0x80 + n mod 0x40) \<noteq> CHR 0x0D"
      by (intro a) auto
    ultimately show ?thesis using assms(1) 2 by (auto simp: utf8_encode_cp_def)
  next
    case 3
    have "char_of (0xE0 + n div 0x1000) \<noteq> CHR 0x0A \<and> char_of (0xE0 + n div 0x1000) \<noteq> CHR 0x0D"
      using 3 by (intro a) auto
    moreover have "char_of (0x80 + n div 0x40 mod 0x40) \<noteq> CHR 0x0A
        \<and> char_of (0x80 + n div 0x40 mod 0x40) \<noteq> CHR 0x0D"
      by (intro a) auto
    moreover have "char_of (0x80 + n mod 0x40) \<noteq> CHR 0x0A \<and> char_of (0x80 + n mod 0x40) \<noteq> CHR 0x0D"
      by (intro a) auto
    ultimately show ?thesis using assms(1) 3 by (auto simp: utf8_encode_cp_def split: if_splits)
  next
    case 4
    have "char_of (0xF0 + n div 0x40000) \<noteq> CHR 0x0A \<and> char_of (0xF0 + n div 0x40000) \<noteq> CHR 0x0D"
      using 4 by (intro a) auto
    moreover have "char_of (0x80 + n div 0x1000 mod 0x40) \<noteq> CHR 0x0A
        \<and> char_of (0x80 + n div 0x1000 mod 0x40) \<noteq> CHR 0x0D"
      by (intro a) auto
    moreover have "char_of (0x80 + n div 0x40 mod 0x40) \<noteq> CHR 0x0A
        \<and> char_of (0x80 + n div 0x40 mod 0x40) \<noteq> CHR 0x0D"
      by (intro a) auto
    moreover have "char_of (0x80 + n mod 0x40) \<noteq> CHR 0x0A \<and> char_of (0x80 + n mod 0x40) \<noteq> CHR 0x0D"
      by (intro a) auto
    ultimately show ?thesis using assms(1) 4 by (auto simp: utf8_encode_cp_def split: if_splits)
  next
    case 5
    then show ?thesis using assms(1) by (auto simp: utf8_encode_cp_def)
  qed
qed

lemma utf8_no_newline:
  "utf8_encode cps = Some bs \<Longrightarrow> 10 \<notin> set cps \<Longrightarrow> 13 \<notin> set cps \<Longrightarrow>
     CHR 0x0A \<notin> set bs \<and> CHR 0x0D \<notin> set bs"
proof (induction cps arbitrary: bs)
  case Nil
  then show ?case by simp
next
  case (Cons cp cps)
  then obtain b rest where b: "utf8_encode_cp cp = Some b" and r: "utf8_encode cps = Some rest"
    and bs: "bs = b @ rest"
    by (auto split: option.splits)
  from utf8_cp_no_newline[OF b] Cons.prems
  have "CHR 0x0A \<notin> set b \<and> CHR 0x0D \<notin> set b" by auto
  moreover from Cons.IH[OF r] Cons.prems
  have "CHR 0x0A \<notin> set rest \<and> CHR 0x0D \<notin> set rest" by auto
  ultimately show ?case using bs by auto
qed

lemma universal_newlines_id: "CHR 0x0D \<notin> set s \<Longrightarrow> universal_newlines s = s"
  by (induction s rule: universal_newlines.induct) auto

lemma split_lines_line:
  "CHR 0x0A \<notin> set t \<Longrightarrow>
     split_lines (t @ CHR 0x0A # rest) = (t @ [CHR 0x0A]) # split_lines rest"
  by (induction t) auto

lemma split_lines_concat:
  "\<forall>t \<in> set ts. CHR 0x0A \<notin> set t \<Longrightarrow>
   split_lines (concat (map (\<lambda>t. t @ [CHR 0x0A]) ts)) = map (\<lambda>t. t @ [CHR 0x0A]) ts"
  by (induction ts) (auto simp: split_lines_line)

lemma file_lines_concat:
  assumes "\<forall>t \<in> set ts. CHR 0x0A \<notin> set t \<and> CHR 0x0D \<notin> set t"
  shows "file_lines (concat (map (\<lambda>t. t @ [CHR 0x0A]) ts)) = map (\<lambda>t. t @ [CHR 0x0A]) ts"
proof -
  have "CHR 0x0D \<notin> set (concat (map (\<lambda>t. t @ [CHR 0x0A]) ts))" using assms by auto
  then show ?thesis
    using assms by (simp add: file_lines_def universal_newlines_id split_lines_concat)
qed

lemma select_device_frame:
  "select_device env g w = (r, w') \<Longrightarrow>
     files w' = files w \<and> dirs w' = dirs w \<and> stdin w' = stdin w"
  by (auto simp: select_device_def Let_def split: if_splits option.splits sum.splits)

section \<open>Idempotency of the two steps\<close>

lemma skip_download:
  assumes "files w (path_join output_path (video_id @ ''.mp3'')) = Some c"
    and "output_path \<in> dirs w \<or>
         mkdir_error env (emit (Call_download_youtube_audio video_id output_path) w) output_path
           = None"
  shows "download_youtube_audio env video_id output_path w =
      (Some (path_join output_path (video_id @ ''.mp3'')),
       w\<lparr>trace := trace w @ [Call_download_youtube_audio video_id output_path,
                               Makedirs output_path, Print (MsgSkipDownload video_id)],
         dirs := insert output_path (dirs w)\<rparr>)"
  using assms
  by (auto simp: download_youtube_audio_def download_body_def os_makedirs_def path_exists_def
      emit_def insert_absorb Let_def split: option.splits)

lemma skip_transcribe:
  assumes "files w (path_join output_path (video_id @ ''_transcription.txt'')) = Some c"
  shows "transcribe_audio_and_save_to_txt env audio_file video_id language_code output_path
           auto_detect_language gpu_id w =
      (Some (path_join output_path (video_id @ ''_transcription.txt'')),
       w\<lparr>trace := trace w @ [Call_transcribe_audio_and_save_to_txt audio_file video_id
                                 language_code output_path auto_detect_language gpu_id,
                               Print (MsgSkipTranscription video_id)]\<rparr>)"
  using assms
  by (auto simp: transcribe_audio_and_save_to_txt_def transcribe_body_def path_exists_def
      emit_def Let_def)

text \<open>
  C2. When a file exists at \<^verbatim>\<open>{output_path}/{video_id}.mp3\<close>, whatever its content, and
  the output directory exists or can be created (the contract's \<^verbatim>\<open>outputDir creatable\<close>),
  \<^verbatim>\<open>download_youtube_audio\<close> returns that path; all it does is the \<^verbatim>\<open>makedirs\<close> call and the
  "skipping" line: the downloader is not called and no file changes. When a file exists at
  \<^verbatim>\<open>{output_path}/{video_id}_transcription.txt\<close>, \<^verbatim>\<open>transcribe_audio_and_save_to_txt\<close> returns
  that path and only prints the "skipping" line: no device query, no model load, no
  inference, no write.
\<close>

theorem idempotency_short_circuit:
  "(files w (path_join output_path (video_id @ ''.mp3'')) = Some c \<and>
    (output_path \<in> dirs w \<or>
     mkdir_error env (emit (Call_download_youtube_audio video_id output_path) w) output_path
       = None) \<longrightarrow>
    download_youtube_audio env video_id output_path w =
      (Some (path_join output_path (video_id @ ''.mp3'')),
       w\<lparr>trace := trace w @ [Call_download_youtube_audio video_id output_path,
                               Makedirs output_path, Print (MsgSkipDownload video_id)],
         dirs := insert output_path (dirs w)\<rparr>)) \<and>
   (files w (path_join output_path (video_id @ ''_transcription.txt'')) = Some c' \<longrightarrow>
    transcribe_audio_and_save_to_txt env audio_file video_id language_code output_path
        auto_detect_language gpu_id w =
      (Some (path_join output_path (video_id @ ''_transcription.txt'')),
       w\<lparr>trace := trace w @ [Call_transcribe_audio_and_save_to_txt audio_file video_id
                                 language_code output_path auto_detect_language gpu_id,
                               Print (MsgSkipTranscription video_id)]\<rparr>))"
  using skip_download skip_transcribe by blast

theorem idempotency_short_circuit_witness:
  "download_youtube_audio env_raise ''x'' ''out'' world_done =
      (Some ''out/x.mp3'',
       world_done\<lparr>trace := [Call_download_youtube_audio ''x'' ''out'', Makedirs ''out'',
                             Print (MsgSkipDownload ''x'')]\<rparr>) \<and>
   transcribe_audio_and_save_to_txt env_raise ''out/x.mp3'' ''x'' (Some ''hi'') ''out'' False 0
        world_done =
      (Some ''out/x_transcription.txt'',
       world_done\<lparr>trace := [Call_transcribe_audio_and_save_to_txt ''out/x.mp3'' ''x''
                               (Some ''hi'') ''out'' False 0,
                             Print (MsgSkipTranscription ''x'')]\<rparr>)"
  using idempotency_short_circuit [where w = world_done and output_path = "''out''"
      and video_id = "''x''" and c = "''junk''" and c' = "''old''" and env = env_raise
      and audio_file = "''out/x.mp3''" and language_code = "Some ''hi''"
      and auto_detect_language = False and gpu_id = 0]
  by (simp add: world_done_def path_join_def)

section \<open>The format of a written transcript\<close>

lemma transcribe_body_written:
  assumes "\<not> path_exists w (path_join output_path (video_id @ ''_transcription.txt''))"
    and "transcribe_body env audio_file video_id language_code output_path
           auto_detect_language gpu_id w = (Inr p, w')"
  shows "p = path_join output_path (video_id @ ''_transcription.txt'') \<and>
    (\<exists>segments wq. model_transcribe env wq audio_file
         (if auto_detect_language then NoLanguageArg else LanguageArg language_code) = Inr segments
       \<and> (\<forall>s \<in> set segments. utf8_encode (seg_text s) \<noteq> None)
       \<and> files w' = (files w)(p \<mapsto>
            concat (map (\<lambda>s. the (utf8_encode (seg_text s)) @ [CHR 0x0A]) segments)))"
proof -
  let ?p = "path_join output_path (video_id @ ''_transcription.txt'')"
  let ?arg = "if auto_detect_language then NoLanguageArg else LanguageArg language_code"
  obtain r1 w1 where sd: "select_device env gpu_id w = (r1, w1)"
    by (cases "select_device env gpu_id w") auto
  from select_device_frame[OF sd] have f1: "files w1 = files w" by simp
  let ?w2 = "emit (Print MsgLoadingModel) w1"
  let ?w3 = "emit (LoadModel ''large'' (projr r1)) ?w2"
  let ?w4 = "emit (Print (if auto_detect_language then MsgAutoDetect video_id
                          else MsgSpecifiedLanguage language_code video_id)) ?w3"
  let ?w5 = "emit (ModelTranscribe audio_file ?arg) ?w4"
  let ?w6 = "emit (OpenWrite ?p) ?w5"
  from assms obtain dev where r1: "r1 = Inr dev"
    by (cases r1) (auto simp: transcribe_body_def Let_def sd)
  from assms r1 have lm: "load_model env ?w2 ''large'' dev = None"
    by (cases "load_model env ?w2 ''large'' dev") (auto simp: transcribe_body_def Let_def sd)
  from assms r1 lm obtain segments where mt: "model_transcribe env ?w4 audio_file ?arg = Inr segments"
    by (cases "model_transcribe env ?w4 audio_file ?arg")
       (auto simp: transcribe_body_def Let_def sd)
  from assms r1 lm mt have oe: "open_error env ?w5 ?p = None"
    by (cases "open_error env ?w5 ?p") (auto simp: transcribe_body_def Let_def sd)
  obtain e7 w7 where ws: "write_segments ?p segments (?w6\<lparr>files := (files ?w6)(?p \<mapsto> [])\<rparr>)
      = (e7, w7)"
    by (cases "write_segments ?p segments (?w6\<lparr>files := (files ?w6)(?p \<mapsto> [])\<rparr>)") auto
  from assms r1 lm mt oe ws have e7: "e7 = None"
    by (cases e7) (auto simp: transcribe_body_def Let_def sd)
  from assms r1 lm mt oe ws e7 have res: "p = ?p" "w' = emit (Print (MsgTranscriptSaved video_id ?p)) w7"
    by (auto simp: transcribe_body_def Let_def sd)
  have "files (?w6\<lparr>files := (files ?w6)(?p \<mapsto> [])\<rparr>) ?p = Some []" by simp
  from files_write_segments[OF ws[unfolded e7] this]
  have enc: "\<forall>s \<in> set segments. utf8_encode (seg_text s) \<noteq> None"
    and f7: "files w7 = (files w)(?p \<mapsto>
        concat (map (\<lambda>s. the (utf8_encode (seg_text s)) @ [CHR 0x0A]) segments))"
    using r1 f1 by auto
  show ?thesis
  proof (intro conjI exI)
    show "p = ?p" by (rule res)
    show "model_transcribe env ?w4 audio_file ?arg = Inr segments" by (rule mt)
    show "\<forall>s \<in> set segments. utf8_encode (seg_text s) \<noteq> None" by (rule enc)
    show "files w' = (files w)(p \<mapsto>
            concat (map (\<lambda>s. the (utf8_encode (seg_text s)) @ [CHR 0x0A]) segments))"
      using f7 res by simp
  qed
qed

text \<open>
  C7, amended. When the transcript does not exist yet and
  \<^verbatim>\<open>transcribe_audio_and_save_to_txt\<close> returns a path, the engine returned a sequence of
  segments, every text could be encoded, and the transcript file holds exactly, in the
  order of the sequence, the UTF-8 encoding of each segment's text followed by a newline:
  no timestamps, nothing else. The file has exactly one line per segment, holding that
  segment's text, when no text contains a line break (a newline or a carriage return)
  itself; a text that contains one is written as it is and spreads over several lines.
\<close>

theorem transcript_format:
  assumes "\<not> path_exists w (path_join output_path (video_id @ ''_transcription.txt''))"
    and "transcribe_audio_and_save_to_txt env audio_file video_id language_code output_path
           auto_detect_language gpu_id w = (Some p, w')"
  shows "p = path_join output_path (video_id @ ''_transcription.txt'') \<and>
    (\<exists>segments wq. model_transcribe env wq audio_file
         (if auto_detect_language then NoLanguageArg else LanguageArg language_code) = Inr segments
       \<and> (\<forall>s \<in> set segments. utf8_encode (seg_text s) \<noteq> None)
       \<and> files w' p =
           Some (concat (map (\<lambda>s. the (utf8_encode (seg_text s)) @ [CHR 0x0A]) segments))
       \<and> ((\<forall>s \<in> set segments. 0x0A \<notin> set (seg_text s) \<and> 0x0D \<notin> set (seg_text s)) \<longrightarrow>
            file_lines (the (files w' p)) =
              map (\<lambda>s. the (utf8_encode (seg_text s)) @ [CHR 0x0A]) segments))"
proof -
  let ?w0 = "emit (Call_transcribe_audio_and_save_to_txt audio_file video_id language_code
                      output_path auto_detect_language gpu_id) w"
  from assms(2) have b: "transcribe_body env audio_file video_id language_code output_path
      auto_detect_language gpu_id ?w0 = (Inr p, w')"
    by (auto simp: transcribe_audio_and_save_to_txt_def split: prod.splits sum.splits)
  from assms(1)
  have "\<not> path_exists ?w0 (path_join output_path (video_id @ ''_transcription.txt''))"
    by simp
  from transcribe_body_written[OF this b] obtain segments wq where
    p: "p = path_join output_path (video_id @ ''_transcription.txt'')"
    and m: "model_transcribe env wq audio_file
         (if auto_detect_language then NoLanguageArg else LanguageArg language_code) = Inr segments"
    and enc: "\<forall>s \<in> set segments. utf8_encode (seg_text s) \<noteq> None"
    and f: "files w' = (files ?w0)(p \<mapsto>
          concat (map (\<lambda>s. the (utf8_encode (seg_text s)) @ [CHR 0x0A]) segments))"
    by blast
  have fp: "files w' p =
      Some (concat (map (\<lambda>s. the (utf8_encode (seg_text s)) @ [CHR 0x0A]) segments))"
    using f by simp
  have l: "(\<forall>s \<in> set segments. 0x0A \<notin> set (seg_text s) \<and> 0x0D \<notin> set (seg_text s)) \<longrightarrow>
      file_lines (concat (map (\<lambda>s. the (utf8_encode (seg_text s)) @ [CHR 0x0A]) segments)) =
        map (\<lambda>s. the (utf8_encode (seg_text s)) @ [CHR 0x0A]) segments"
  proof
    assume n: "\<forall>s \<in> set segments. 0x0A \<notin> set (seg_text s) \<and> 0x0D \<notin> set (seg_text s)"
    have "\<forall>t \<in> set (map (\<lambda>s. the (utf8_encode (seg_text s))) segments).
        CHR 0x0A \<notin> set t \<and> CHR 0x0D \<notin> set t"
    proof
      fix t assume "t \<in> set (map (\<lambda>s. the (utf8_encode (seg_text s))) segments)"
      then obtain s where s: "s \<in> set segments" and t: "t = the (utf8_encode (seg_text s))"
        by auto
      from enc s obtain bs where bs: "utf8_encode (seg_text s) = Some bs" by auto
      from utf8_no_newline[OF bs] n s have "CHR 0x0A \<notin> set bs \<and> CHR 0x0D \<notin> set bs" by auto
      then show "CHR 0x0A \<notin> set t \<and> CHR 0x0D \<notin> set t" using t bs by simp
    qed
    from file_lines_concat[OF this]
    show "file_lines (concat (map (\<lambda>s. the (utf8_encode (seg_text s)) @ [CHR 0x0A]) segments)) =
        map (\<lambda>s. the (utf8_encode (seg_text s)) @ [CHR 0x0A]) segments"
      by (simp add: comp_def)
  qed
  show ?thesis
  proof (intro conjI exI)
    show "p = path_join output_path (video_id @ ''_transcription.txt'')" by (rule p)
    show "model_transcribe env wq audio_file
         (if auto_detect_language then NoLanguageArg else LanguageArg language_code) = Inr segments"
      by (rule m)
    show "\<forall>s \<in> set segments. utf8_encode (seg_text s) \<noteq> None" by (rule enc)
    show "files w' p =
        Some (concat (map (\<lambda>s. the (utf8_encode (seg_text s)) @ [CHR 0x0A]) segments))"
      by (rule fp)
    show "(\<forall>s \<in> set segments. 0x0A \<notin> set (seg_text s) \<and> 0x0D \<notin> set (seg_text s)) \<longrightarrow>
            file_lines (the (files w' p)) =
              map (\<lambda>s. the (utf8_encode (seg_text s)) @ [CHR 0x0A]) segments"
      using l fp by simp
  qed
qed

lemma transcribe_world_audio:
  "transcribe_audio_and_save_to_txt env_ok ''out/x.mp3'' ''x'' (Some ''hi'') ''out'' False 0
       world_audio
     = (Some ''out/x_transcription.txt'',
        snd (transcribe_audio_and_save_to_txt env_ok ''out/x.mp3'' ''x'' (Some ''hi'') ''out''
               False 0 world_audio))"
  by (simp add: transcribe_audio_and_save_to_txt_def transcribe_body_def select_device_def
      env_ok_def world_audio_def path_exists_def path_join_def Let_def abc_segments_def
      utf8_encode_cp_def file_write_def)

theorem transcript_format_witness:
  "file_lines (the (files (snd (transcribe_audio_and_save_to_txt env_ok ''out/x.mp3'' ''x''
       (Some ''hi'') ''out'' False 0 world_audio)) ''out/x_transcription.txt''))
     = [''a\<newline>'', ''b\<newline>'', ''c\<newline>''] \<and>
   files (snd (transcribe_audio_and_save_to_txt env_ok ''out/x.mp3'' ''x''
       (Some ''hi'') ''out'' False 0 world_audio)) ''out/x_transcription.txt''
     = Some ''a\<newline>b\<newline>c\<newline>''"
proof -
  have h: "\<not> path_exists world_audio (path_join ''out'' (''x'' @ ''_transcription.txt''))"
    by (simp add: path_exists_def world_audio_def path_join_def)
  from transcript_format[OF h transcribe_world_audio] show ?thesis
    by (auto simp: env_ok_def abc_segments_def utf8_encode_cp_def char_of_def bit_iff_odd
        split: option.splits)
qed

text \<open>
  The claim as stated fails: the engine returns one segment whose text is \<open>a\<close>, a
  newline, \<open>b\<close>; the transcription succeeds and the file has two lines for one segment.
  The other example is a text outside Latin-1, written as its three UTF-8 bytes.
\<close>

theorem transcript_format_counterexample:
  "fst (transcribe_audio_and_save_to_txt env_two_lines ''out/x.mp3'' ''x'' (Some ''hi'') ''out''
          False 0 world_audio) = Some ''out/x_transcription.txt'' \<and>
   model_transcribe env_two_lines world_audio ''out/x.mp3'' (LanguageArg (Some ''hi''))
     = Inr [\<lparr>seg_text = [0x61, 0x0A, 0x62], seg_start = 0, seg_end = 2\<rparr>] \<and>
   file_lines (the (files (snd (transcribe_audio_and_save_to_txt env_two_lines ''out/x.mp3''
       ''x'' (Some ''hi'') ''out'' False 0 world_audio)) ''out/x_transcription.txt''))
     = [''a\<newline>'', ''b\<newline>'']"
  by (simp add: transcribe_audio_and_save_to_txt_def transcribe_body_def select_device_def
      env_two_lines_def env_ok_def world_audio_def path_exists_def path_join_def Let_def
      utf8_encode_cp_def file_write_def file_lines_def char_of_def bit_iff_odd)

lemma transcript_hindi:
  "files (snd (transcribe_audio_and_save_to_txt env_hindi ''out/x.mp3'' ''x'' (Some ''hi'')
       ''out'' False 0 world_audio)) ''out/x_transcription.txt''
     = Some [CHR 0xE0, CHR 0xA4, CHR 0x95, CHR 0x0A]"
  by (simp add: transcribe_audio_and_save_to_txt_def transcribe_body_def select_device_def
      env_hindi_def env_ok_def world_audio_def path_exists_def path_join_def Let_def
      utf8_encode_cp_def file_write_def char_of_def bit_iff_odd)

section \<open>Exceptions stay inside the two steps\<close>

text \<open>
  C4. \<^verbatim>\<open>download_youtube_audio\<close> and \<^verbatim>\<open>transcribe_audio_and_save_to_txt\<close> return a value
  in every case. When the result is \<^verbatim>\<open>None\<close>, the last thing done was printing the error
  line, which carries the identifier and the exception. In particular: on a cache miss,
  an exception \<open>e\<close> of the downloader gives \<^verbatim>\<open>None\<close> and the line for \<open>e\<close>; in a
  transcription that is not short-circuited, an exception \<open>e\<close> of the model load or of
  the inference gives \<^verbatim>\<open>None\<close> and the line for \<open>e\<close>.
\<close>

theorem exception_containment:
  fixes env video_id output_path w audio_file language_code auto_detect_language gpu_id
  defines "w1 \<equiv> snd (os_makedirs env output_path
                       (emit (Call_download_youtube_audio video_id output_path) w))"
  defines "r \<equiv> download_youtube_audio env video_id output_path w"
  defines "wt \<equiv> emit (Call_transcribe_audio_and_save_to_txt audio_file video_id language_code
                      output_path auto_detect_language gpu_id) w"
  defines "t \<equiv> transcribe_audio_and_save_to_txt env audio_file video_id language_code
                  output_path auto_detect_language gpu_id w"
  shows "(fst r = None \<longrightarrow> (\<exists>e. last (trace (snd r)) = Print (MsgDownloadError video_id e))) \<and>
    (fst (os_makedirs env output_path
            (emit (Call_download_youtube_audio video_id output_path) w)) = None \<and>
     \<not> path_exists w1 (path_join output_path (video_id @ ''.mp3'')) \<and>
     fst (ydl_download env w1 (''https://www.youtube.com/watch?v='' @ video_id)
            (path_join output_path (video_id @ ''.%(ext)s''))) = Some e \<longrightarrow>
     fst r = None \<and> last (trace (snd r)) = Print (MsgDownloadError video_id e)) \<and>
    (fst t = None \<longrightarrow> (\<exists>e. last (trace (snd t)) = Print (MsgTranscribeError video_id e))) \<and>
    (\<not> path_exists w (path_join output_path (video_id @ ''_transcription.txt'')) \<and>
     select_device env gpu_id wt = (Inr dev, wd) \<and>
     load_model env (emit (Print MsgLoadingModel) wd) ''large'' dev = Some e \<longrightarrow>
     fst t = None \<and> last (trace (snd t)) = Print (MsgTranscribeError video_id e)) \<and>
    (\<not> path_exists w (path_join output_path (video_id @ ''_transcription.txt'')) \<and>
     select_device env gpu_id wt = (Inr dev, wd) \<and>
     load_model env (emit (Print MsgLoadingModel) wd) ''large'' dev = None \<and>
     model_transcribe env
        (emit (Print (if auto_detect_language then MsgAutoDetect video_id
                      else MsgSpecifiedLanguage language_code video_id))
           (emit (LoadModel ''large'' dev) (emit (Print MsgLoadingModel) wd)))
        audio_file (if auto_detect_language then NoLanguageArg else LanguageArg language_code)
       = Inl e \<longrightarrow>
     fst t = None \<and> last (trace (snd t)) = Print (MsgTranscribeError video_id e))"
  unfolding w1_def r_def wt_def t_def
  apply (intro conjI impI)
  subgoal by (auto simp: download_youtube_audio_def split: prod.splits sum.splits)
  subgoal by (auto simp: download_youtube_audio_def download_body_def Let_def split: prod.splits sum.splits option.splits)
  subgoal by (auto simp: download_youtube_audio_def download_body_def Let_def split: prod.splits sum.splits option.splits)
  subgoal by (auto simp: transcribe_audio_and_save_to_txt_def split: prod.splits sum.splits)
  subgoal by (auto simp: transcribe_audio_and_save_to_txt_def transcribe_body_def Let_def split: prod.splits sum.splits option.splits)
  subgoal by (auto simp: transcribe_audio_and_save_to_txt_def transcribe_body_def Let_def split: prod.splits sum.splits option.splits)
  subgoal by (auto simp: transcribe_audio_and_save_to_txt_def transcribe_body_def Let_def split: prod.splits sum.splits option.splits)
  subgoal by (auto simp: transcribe_audio_and_save_to_txt_def transcribe_body_def Let_def split: prod.splits sum.splits option.splits)
  done


theorem exception_containment_witness:
  "fst (download_youtube_audio env_raise ''x'' ''out'' world_dir) = None \<and>
   last (trace (snd (download_youtube_audio env_raise ''x'' ''out'' world_dir)))
     = Print (MsgDownloadError ''x'' (External ''download'')) \<and>
   fst (transcribe_audio_and_save_to_txt env_raise ''out/x.mp3'' ''x'' (Some ''hi'') ''out''
          False 0 world_dir) = None \<and>
   last (trace (snd (transcribe_audio_and_save_to_txt env_raise ''out/x.mp3'' ''x'' (Some ''hi'')
          ''out'' False 0 world_dir)))
     = Print (MsgTranscribeError ''x'' (External ''load'')) \<and>
   fst (transcribe_audio_and_save_to_txt env_no_speech ''out/x.mp3'' ''x'' (Some ''hi'') ''out''
          False 0 world_dir) = None \<and>
   last (trace (snd (transcribe_audio_and_save_to_txt env_no_speech ''out/x.mp3'' ''x''
          (Some ''hi'') ''out'' False 0 world_dir)))
     = Print (MsgTranscribeError ''x'' (External ''transcribe''))"
  using exception_containment [where env = env_raise and video_id = "''x''"
      and output_path = "''out''" and w = world_dir and audio_file = "''out/x.mp3''"
      and language_code = "Some ''hi''" and auto_detect_language = False and gpu_id = 0
      and dev = Cpu and e = "External ''download''"
      and wd = "emit (Print MsgCudaNotAvailable)
                  (emit (Call_transcribe_audio_and_save_to_txt ''out/x.mp3'' ''x'' (Some ''hi'')
                     ''out'' False 0) world_dir)"]
    exception_containment [where env = env_raise and video_id = "''x''"
      and output_path = "''out''" and w = world_dir and audio_file = "''out/x.mp3''"
      and language_code = "Some ''hi''" and auto_detect_language = False and gpu_id = 0
      and dev = Cpu and e = "External ''load''"
      and wd = "emit (Print MsgCudaNotAvailable)
                  (emit (Call_transcribe_audio_and_save_to_txt ''out/x.mp3'' ''x'' (Some ''hi'')
                     ''out'' False 0) world_dir)"]
    exception_containment [where env = env_no_speech and video_id = "''x''"
      and output_path = "''out''" and w = world_dir and audio_file = "''out/x.mp3''"
      and language_code = "Some ''hi''" and auto_detect_language = False and gpu_id = 0
      and dev = Cpu and e = "External ''transcribe''"
      and wd = "emit (Print MsgCudaNotAvailable)
                  (emit (Call_transcribe_audio_and_save_to_txt ''out/x.mp3'' ''x'' (Some ''hi'')
                     ''out'' False 0) world_dir)"]
  by (simp add: env_raise_def env_no_speech_def env_ok_def world_dir_def os_makedirs_def
      select_device_def path_exists_def path_join_def)

lemma os_makedirs_world:
  "os_makedirs env p w = (r, w') \<Longrightarrow>
     trace w' = trace w @ [Makedirs p] \<and> files w' = files w \<and> stdin w' = stdin w \<and>
     dirs w \<subseteq> dirs w' \<and> (r = None \<longrightarrow> p \<in> dirs w')"
  by (auto simp: os_makedirs_def Let_def split: if_splits option.splits)

lemma path_join_nonempty [simp]: "path_join a (b @ c # cs) \<noteq> []"
  by (simp add: path_join_def)

section \<open>What a successful acquisition guarantees\<close>

text \<open>
  C10. On a cache miss on which the downloader raises nothing, \<^verbatim>\<open>download_youtube_audio\<close>
  returns \<^verbatim>\<open>{output_path}/{video_id}.mp3\<close> whether or not the downloader left a file
  there: the file is on disk afterwards exactly when the downloader wrote it. The loop
  hands the path to the transcription step without a check of its own, so the fate of the
  item is whatever that step returns.
\<close>

theorem acquisition_unverified:
  fixes env video_id output_path wp language_code auto_detect_language gpu_id num_videos idx
  defines "w \<equiv> emit (Print (MsgProcessing idx num_videos video_id)) wp"
  defines "p \<equiv> path_join output_path (video_id @ ''.mp3'')"
  defines "w1 \<equiv> snd (os_makedirs env output_path
                       (emit (Call_download_youtube_audio video_id output_path) w))"
  defines "dl \<equiv> ydl_download env w1 (''https://www.youtube.com/watch?v='' @ video_id)
                  (path_join output_path (video_id @ ''.%(ext)s''))"
  defines "r \<equiv> download_youtube_audio env video_id output_path w"
  assumes mk: "fst (os_makedirs env output_path
                     (emit (Call_download_youtube_audio video_id output_path) w)) = None"
    and miss: "\<not> path_exists w1 p"
    and ok: "fst dl = None"
  shows "fst r = Some p \<and>
    files (snd r) p = snd dl \<and>
    path_exists (snd r) p = (snd dl \<noteq> None) \<and>
    process_video env language_code output_path auto_detect_language gpu_id num_videos idx
        video_id wp =
      (case transcribe_audio_and_save_to_txt env p video_id language_code output_path
              auto_detect_language gpu_id (snd r) of
         (transcript_file, w3) \<Rightarrow>
           if transcript_file = None
           then (False, emit (Print (MsgErrorForVideo video_id
                   (Exception (''Transcription failed or was skipped for video ID: ''
                      @ video_id)))) w3)
           else (True, w3))"
proof -
  obtain m where m: "os_makedirs env output_path
      (emit (Call_download_youtube_audio video_id output_path) w) = (None, m)"
    using mk by (cases "os_makedirs env output_path
      (emit (Call_download_youtube_audio video_id output_path) w)") auto
  have w1: "w1 = m" by (simp add: w1_def m)
  have nd: "p \<notin> dirs m" "files m p = None"
    using miss by (auto simp: w1 path_exists_def)
  have r1: "fst r = Some p"
    using miss ok
    by (auto simp: r_def download_youtube_audio_def download_body_def m Let_def w1 dl_def p_def
        split: option.splits)
  have r2: "files (snd r) p = snd dl"
    using miss ok nd
    by (auto simp: r_def download_youtube_audio_def download_body_def m Let_def w1 dl_def p_def
        split: option.splits)
  have r3: "path_exists (snd r) p = (snd dl \<noteq> None)"
    using miss ok nd
    by (auto simp: r_def download_youtube_audio_def download_body_def m Let_def w1 dl_def p_def
        path_exists_def split: option.splits)
  have r4: "process_video env language_code output_path auto_detect_language gpu_id num_videos idx
        video_id wp =
      (case transcribe_audio_and_save_to_txt env p video_id language_code output_path
              auto_detect_language gpu_id (snd r) of
         (transcript_file, w3) \<Rightarrow>
           if transcript_file = None
           then (False, emit (Print (MsgErrorForVideo video_id
                   (Exception (''Transcription failed or was skipped for video ID: ''
                      @ video_id)))) w3)
           else (True, w3))"
    using r1 by (cases r) (auto simp: process_video_def r_def w_def p_def)
  show ?thesis using r1 r2 r3 r4 by blast
qed

theorem acquisition_unverified_witness:
  "fst (download_youtube_audio env_no_file ''x'' ''out''
          (emit (Print (MsgProcessing 1 1 ''x'')) world_dir)) = Some ''out/x.mp3'' \<and>
   files (snd (download_youtube_audio env_no_file ''x'' ''out''
          (emit (Print (MsgProcessing 1 1 ''x'')) world_dir))) ''out/x.mp3'' = None \<and>
   fst (process_video env_no_file (Some ''hi'') ''out'' False 0 1 1 ''x'' world_dir) = False"
  using acquisition_unverified [where env = env_no_file and video_id = "''x''"
      and output_path = "''out''" and wp = world_dir and idx = 1 and num_videos = 1
      and language_code = "Some ''hi''" and auto_detect_language = False and gpu_id = 0]
  by (simp add: env_no_file_def env_ok_def world_dir_def os_makedirs_def path_exists_def
      path_join_def download_youtube_audio_def download_body_def
      transcribe_audio_and_save_to_txt_def transcribe_body_def select_device_def Let_def)

section \<open>Worlds only grow\<close>

lemma grows_refl [simp]: "grows w w"
  by (simp add: grows_def)

lemma grows_trace: "grows w w' \<Longrightarrow> trace w' = trace w @ new_events w w'"
  by (auto simp: grows_def new_events_def)

lemma grows_trans: "grows w w' \<Longrightarrow> grows w' w'' \<Longrightarrow> grows w w''"
  unfolding grows_def by (auto intro: map_le_trans)

lemma grows_emit [simp]: "grows w (emit e w)"
  by (simp add: grows_def)

lemma new_events_trans:
  "grows w w' \<Longrightarrow> grows w' w'' \<Longrightarrow> new_events w w'' = new_events w w' @ new_events w' w''"
  by (metis grows_trace append.assoc new_events_append)

lemma grows_path_exists: "grows w w' \<Longrightarrow> path_exists w p \<Longrightarrow> path_exists w' p"
  by (auto simp: grows_def path_exists_def map_le_def dom_def)

lemma download_calls_append [simp]:
  "download_calls (xs @ ys) = download_calls xs @ download_calls ys"
  by (induction xs rule: download_calls.induct) simp_all

lemma transcribe_calls_append [simp]:
  "transcribe_calls (xs @ ys) = transcribe_calls xs @ transcribe_calls ys"
  by (induction xs rule: transcribe_calls.induct) simp_all

lemma download_grows:
  "grows w (snd (download_youtube_audio env v out w))"
  by (auto simp: grows_def download_youtube_audio_def download_body_def os_makedirs_def Let_def
      path_exists_def map_le_def dom_def split: option.splits prod.splits sum.splits if_splits)

lemma download_events:
  "download_calls (new_events w (snd (download_youtube_audio env v out w))) = [v] \<and>
   transcribe_calls (new_events w (snd (download_youtube_audio env v out w))) = []"
  by (auto simp: new_events_def download_youtube_audio_def download_body_def os_makedirs_def
      Let_def split: option.splits prod.splits sum.splits if_splits)

lemma select_device_world:
  "select_device env g w = (r, w') \<Longrightarrow>
     files w' = files w \<and> dirs w' = dirs w \<and> stdin w' = stdin w \<and>
     (\<exists>evs. trace w' = trace w @ evs \<and> download_calls evs = [] \<and> transcribe_calls evs = [])"
  by (auto simp: select_device_def Let_def split: if_splits option.splits sum.splits)

lemma transcribe_body_world:
  assumes "transcribe_body env a v lc out au g w = (r, w')"
  shows "dirs w' = dirs w \<and> stdin w' = stdin w \<and>
     (\<forall>q. q \<noteq> path_join out (v @ ''_transcription.txt'') \<longrightarrow> files w' q = files w q) \<and>
     (path_exists w (path_join out (v @ ''_transcription.txt'')) \<longrightarrow> files w' = files w) \<and>
     (\<exists>evs. trace w' = trace w @ evs \<and> download_calls evs = [] \<and> transcribe_calls evs = [])"
proof (cases "path_exists w (path_join out (v @ ''_transcription.txt''))")
  case True
  then have "w' = emit (Print (MsgSkipTranscription v)) w"
    using assms by (simp add: transcribe_body_def Let_def)
  then show ?thesis by simp
next
  case False
  let ?p = "path_join out (v @ ''_transcription.txt'')"
  obtain r1 w1 where sd: "select_device env g w = (r1, w1)"
    by (cases "select_device env g w") auto
  from select_device_world[OF sd] obtain evs where
    f: "files w1 = files w" and d: "dirs w1 = dirs w" and i: "stdin w1 = stdin w"
    and t: "trace w1 = trace w @ evs" and c: "download_calls evs = []" "transcribe_calls evs = []"
    by blast
  let ?w2 = "emit (Print MsgLoadingModel) w1"
  let ?w3 = "emit (LoadModel ''large'' (projr r1)) ?w2"
  let ?arg = "if au then NoLanguageArg else LanguageArg lc"
  let ?w4 = "emit (Print (if au then MsgAutoDetect v else MsgSpecifiedLanguage lc v)) ?w3"
  let ?w5 = "emit (ModelTranscribe a ?arg) ?w4"
  let ?w6 = "emit (OpenWrite ?p) ?w5"
  show ?thesis
  proof (cases r1)
    case (Inl e)
    then have "w' = w1" using assms False by (simp add: transcribe_body_def Let_def sd)
    then show ?thesis using False f d i t c by simp
  next
    case (Inr dev)
    show ?thesis
    proof (cases "load_model env ?w2 ''large'' dev")
      case (Some e)
      then have "w' = ?w3" using assms False Inr
        by (simp add: transcribe_body_def Let_def sd)
      then show ?thesis using False f d i t c by simp
    next
      case None
      show ?thesis
      proof (cases "model_transcribe env ?w4 a ?arg")
        case (Inl e)
        then have "w' = ?w5" using assms False Inr None
          by (simp add: transcribe_body_def Let_def sd)
        then show ?thesis using False f d i t c by simp
      next
        case segs: (Inr segments)
        show ?thesis
        proof (cases "open_error env ?w5 ?p")
          case (Some e)
          then have "w' = ?w6" using assms False Inr None segs
            by (simp add: transcribe_body_def Let_def sd)
          then show ?thesis using False f d i t c by simp
        next
          case oe: None
          define w6' where "w6' = ?w6\<lparr>files := (files ?w6)(?p \<mapsto> [])\<rparr>"
          obtain e7 w7 where ws: "write_segments ?p segments w6' = (e7, w7)"
            by (cases "write_segments ?p segments w6'") auto
          have b: "transcribe_body env a v lc out au g w =
              (case e7 of Some e \<Rightarrow> (Inl e, w7)
               | None \<Rightarrow> (Inr ?p, emit (Print (MsgTranscriptSaved v ?p)) w7))"
            using False Inr None segs oe ws[unfolded w6'_def]
            by (simp add: transcribe_body_def Let_def sd)
          have fr: "trace w7 = trace w6'" "dirs w7 = dirs w6'" "stdin w7 = stdin w6'"
            using write_segments_frame[of ?p segments w6'] ws by simp_all
          have fo: "\<And>q. q \<noteq> ?p \<Longrightarrow> files w7 q = files w6' q"
            using files_write_segments_other[of _ ?p segments w6'] ws by simp
          have w7t: "trace w7 = trace w @ evs @ [Print MsgLoadingModel, LoadModel ''large'' dev,
              Print (if au then MsgAutoDetect v else MsgSpecifiedLanguage lc v),
              ModelTranscribe a ?arg, OpenWrite ?p]"
            using fr(1) t Inr by (simp add: w6'_def)
          have w7d: "dirs w7 = dirs w"
            using fr(2) d by (simp add: w6'_def)
          have w7i: "stdin w7 = stdin w"
            using fr(3) i by (simp add: w6'_def)
          have w7f: "\<forall>q. q \<noteq> ?p \<longrightarrow> files w7 q = files w q"
            using fo f by (simp add: w6'_def)
          have "w' = w7 \<or> w' = emit (Print (MsgTranscriptSaved v ?p)) w7"
            using assms b by (cases e7) auto
          then show ?thesis
          proof
            assume "w' = w7"
            then show ?thesis using False w7t w7d w7i w7f c by simp
          next
            assume "w' = emit (Print (MsgTranscriptSaved v ?p)) w7"
            then show ?thesis using False w7t w7d w7i w7f c by simp
          qed
        qed
      qed
    qed
  qed
qed

lemma transcribe_body_grows:
  assumes "transcribe_body env a v lc out au g w = (r, w')"
  shows "grows w w' \<and> download_calls (new_events w w') = [] \<and>
         transcribe_calls (new_events w w') = []"
proof -
  let ?p = "path_join out (v @ ''_transcription.txt'')"
  from transcribe_body_world[OF assms] obtain evs where
    d: "dirs w' = dirs w" and i: "stdin w' = stdin w"
    and o: "\<forall>q. q \<noteq> ?p \<longrightarrow> files w' q = files w q"
    and e: "path_exists w ?p \<longrightarrow> files w' = files w"
    and t: "trace w' = trace w @ evs" and c: "download_calls evs = []" "transcribe_calls evs = []"
    by blast
  have m: "files w \<subseteq>\<^sub>m files w'"
  proof (cases "path_exists w ?p")
    case True
    then show ?thesis using e by simp
  next
    case False
    then have n: "files w ?p = None" by (auto simp: path_exists_def)
    show ?thesis
      unfolding map_le_def
    proof
      fix q assume "q \<in> dom (files w)"
      then have "q \<noteq> ?p" using n by auto
      then show "files w q = files w' q" using o by simp
    qed
  qed
  show ?thesis using m d i t c by (auto simp: grows_def new_events_def)
qed

lemma transcribe_grows:
  "grows w (snd (transcribe_audio_and_save_to_txt env a v lc out au g w))"
proof -
  let ?w0 = "emit (Call_transcribe_audio_and_save_to_txt a v lc out au g) w"
  obtain r w' where b: "transcribe_body env a v lc out au g ?w0 = (r, w')"
    by (cases "transcribe_body env a v lc out au g ?w0") auto
  from transcribe_body_grows[OF b] have "grows ?w0 w'" by simp
  then have g: "grows w w'" by (rule grows_trans[OF grows_emit])
  show ?thesis
  proof (cases r)
    case (Inl e)
    then have "snd (transcribe_audio_and_save_to_txt env a v lc out au g w) =
        emit (Print (MsgTranscribeError v e)) w'"
      by (simp add: transcribe_audio_and_save_to_txt_def b)
    then show ?thesis using grows_trans[OF g grows_emit] by simp
  next
    case (Inr p)
    then have "snd (transcribe_audio_and_save_to_txt env a v lc out au g w) = w'"
      by (simp add: transcribe_audio_and_save_to_txt_def b)
    then show ?thesis using g by simp
  qed
qed

lemma transcribe_events:
  "download_calls (new_events w (snd (transcribe_audio_and_save_to_txt env a v lc out au g w))) = [] \<and>
   transcribe_calls (new_events w (snd (transcribe_audio_and_save_to_txt env a v lc out au g w))) = [v]"
proof -
  let ?w0 = "emit (Call_transcribe_audio_and_save_to_txt a v lc out au g) w"
  obtain r w' where b: "transcribe_body env a v lc out au g ?w0 = (r, w')"
    by (cases "transcribe_body env a v lc out au g ?w0") auto
  from transcribe_body_world[OF b] obtain evs where
    t: "trace w' = trace ?w0 @ evs" and c: "download_calls evs = []" "transcribe_calls evs = []"
    by blast
  show ?thesis
  proof (cases r)
    case (Inl e)
    then have "snd (transcribe_audio_and_save_to_txt env a v lc out au g w) =
        emit (Print (MsgTranscribeError v e)) w'"
      by (simp add: transcribe_audio_and_save_to_txt_def b)
    then show ?thesis using t c by (simp add: new_events_def)
  next
    case (Inr p)
    then have "snd (transcribe_audio_and_save_to_txt env a v lc out au g w) = w'"
      by (simp add: transcribe_audio_and_save_to_txt_def b)
    then show ?thesis using t c by (simp add: new_events_def)
  qed
qed

lemma process_video_cases:
  fixes env lc out au g n idx v w
  defines "w0 \<equiv> emit (Print (MsgProcessing idx n v)) w"
  defines "d \<equiv> download_youtube_audio env v out w0"
  defines "t \<equiv> transcribe_audio_and_save_to_txt env (the (fst d)) v lc out au g (snd d)"
  shows "process_video env lc out au g n idx v w =
    (if fst d = None \<or> fst d = Some []
     then (False, emit (Print (MsgErrorForVideo v
             (Exception (''Audio download failed for video ID: '' @ v)))) (snd d))
     else if fst t = None
     then (False, emit (Print (MsgErrorForVideo v
             (Exception (''Transcription failed or was skipped for video ID: '' @ v)))) (snd t))
     else (True, snd t))"
  unfolding w0_def d_def t_def
  by (simp add: process_video_def split: prod.splits)

lemma process_video_grows:
  "grows w (snd (process_video env lc out au g n idx v w))"
proof -
  let ?w0 = "emit (Print (MsgProcessing idx n v)) w"
  let ?d = "download_youtube_audio env v out ?w0"
  let ?t = "transcribe_audio_and_save_to_txt env (the (fst ?d)) v lc out au g (snd ?d)"
  have "grows ?w0 (snd ?d)" by (rule download_grows)
  then have g2: "grows w (snd ?d)" by (rule grows_trans[OF grows_emit])
  have "grows (snd ?d) (snd ?t)" by (rule transcribe_grows)
  then have g3: "grows w (snd ?t)" by (rule grows_trans[OF g2])
  show ?thesis
    unfolding process_video_cases
    using grows_trans[OF g2 grows_emit] grows_trans[OF g3 grows_emit] g3
    by simp
qed

lemma process_video_events:
  fixes env lc out au g n idx v w
  defines "d \<equiv> download_youtube_audio env v out (emit (Print (MsgProcessing idx n v)) w)"
  defines "r \<equiv> process_video env lc out au g n idx v w"
  shows "download_calls (new_events w (snd r)) = [v] \<and>
    transcribe_calls (new_events w (snd r)) = (if fst d = None \<or> fst d = Some [] then [] else [v])"
proof -
  let ?w0 = "emit (Print (MsgProcessing idx n v)) w"
  let ?t = "transcribe_audio_and_save_to_txt env (the (fst d)) v lc out au g (snd d)"
  have g0: "grows w ?w0" by simp
  have g1: "grows ?w0 (snd d)" unfolding d_def by (rule download_grows)
  have g2: "grows (snd d) (snd ?t)" by (rule transcribe_grows)
  have n0: "new_events w ?w0 = [Print (MsgProcessing idx n v)]" by (simp add: new_events_def)
  have n1: "download_calls (new_events ?w0 (snd d)) = [v]"
      "transcribe_calls (new_events ?w0 (snd d)) = []"
    unfolding d_def using download_events by auto
  have n2: "download_calls (new_events (snd d) (snd ?t)) = []"
      "transcribe_calls (new_events (snd d) (snd ?t)) = [v]"
    using transcribe_events by auto
  have nd: "new_events w (snd d) = new_events w ?w0 @ new_events ?w0 (snd d)"
    by (rule new_events_trans[OF g0 g1])
  have gd: "grows w (snd d)" by (rule grows_trans[OF g0 g1])
  have nt: "new_events w (snd ?t) = new_events w (snd d) @ new_events (snd d) (snd ?t)"
    by (rule new_events_trans[OF gd g2])
  have gt: "grows w (snd ?t)" by (rule grows_trans[OF gd g2])
  have ne: "\<And>w' e. grows w w' \<Longrightarrow> new_events w (emit e w') = new_events w w' @ [e]"
    using new_events_trans[OF _ grows_emit] by (simp add: new_events_def)
  show ?thesis
    unfolding r_def process_video_cases
    using n0 n1 n2 nd nt ne[OF gd] ne[OF gt]
    by (simp add: d_def)
qed

section \<open>The loop isolates failures\<close>


lemma process_videos_acc:
  "process_videos env lc out au g n idx ids failed w =
     (failed @ fst (process_videos env lc out au g n idx ids [] w),
      snd (process_videos env lc out au g n idx ids [] w))"
proof (induction ids arbitrary: idx failed w)
  case Nil
  then show ?case by simp
next
  case (Cons v rest)
  obtain ok w' where s: "process_video env lc out au g n idx v w = (ok, w')"
    by (cases "process_video env lc out au g n idx v w") auto
  show ?case
  proof (cases ok)
    case True
    then show ?thesis using Cons.IH[of "Suc idx" failed w'] by (simp add: s)
  next
    case False
    have a: "process_videos env lc out au g n (Suc idx) rest (failed @ [v]) w' =
        ((failed @ [v]) @ fst (process_videos env lc out au g n (Suc idx) rest [] w'),
         snd (process_videos env lc out au g n (Suc idx) rest [] w'))"
      by (rule Cons.IH)
    have b: "process_videos env lc out au g n (Suc idx) rest [v] w' =
        ([v] @ fst (process_videos env lc out au g n (Suc idx) rest [] w'),
         snd (process_videos env lc out au g n (Suc idx) rest [] w'))"
      by (rule Cons.IH)
    show ?thesis using False by (simp add: s a b)
  qed
qed

lemma process_videos_append:
  "process_videos env lc out au g n idx (xs @ ys) failed w =
     process_videos env lc out au g n (idx + length xs) ys
       (fst (process_videos env lc out au g n idx xs failed w))
       (snd (process_videos env lc out au g n idx xs failed w))"
proof (induction xs arbitrary: idx failed w)
  case Nil
  then show ?case by simp
next
  case (Cons v rest)
  obtain ok w' where s: "process_video env lc out au g n idx v w = (ok, w')"
    by (cases "process_video env lc out au g n idx v w") auto
  show ?case
    using Cons.IH[of "Suc idx" "if ok then failed else failed @ [v]" w']
    by (simp add: s)
qed

lemma process_videos_grows:
  "grows w (snd (process_videos env lc out au g n idx ids failed w))"
proof (induction ids arbitrary: idx failed w)
  case Nil
  then show ?case by simp
next
  case (Cons v rest)
  obtain ok w' where s: "process_video env lc out au g n idx v w = (ok, w')"
    by (cases "process_video env lc out au g n idx v w") auto
  have g: "grows w w'" using process_video_grows[of w env lc out au g n idx v] s by simp
  show ?case
    using grows_trans[OF g Cons.IH[of w' "Suc idx" "if ok then failed else failed @ [v]"]]
    by (simp add: s)
qed

lemma process_videos_events:
  "download_calls (new_events w (snd (process_videos env lc out au g n idx ids failed w))) = ids"
proof (induction ids arbitrary: idx failed w)
  case Nil
  then show ?case by (simp add: new_events_def)
next
  case (Cons v rest)
  obtain ok w' where s: "process_video env lc out au g n idx v w = (ok, w')"
    by (cases "process_video env lc out au g n idx v w") auto
  let ?f = "if ok then failed else failed @ [v]"
  let ?w'' = "snd (process_videos env lc out au g n (Suc idx) rest ?f w')"
  have g: "grows w w'" using process_video_grows[of w env lc out au g n idx v] s by simp
  have g2: "grows w' ?w''" by (rule process_videos_grows)
  have e: "download_calls (new_events w w') = [v]"
    using process_video_events[of w env lc out au g n idx v] s by simp
  show ?case
    using new_events_trans[OF g g2] e Cons.IH[of w' "Suc idx" ?f]
    by (simp add: s)
qed

lemma process_videos_subseq:
  "subseq (fst (process_videos env lc out au g n idx ids [] w)) ids"
proof (induction ids arbitrary: idx w)
  case Nil
  then show ?case by simp
next
  case (Cons v rest)
  obtain ok w' where s: "process_video env lc out au g n idx v w = (ok, w')"
    by (cases "process_video env lc out au g n idx v w") auto
  show ?case
  proof (cases ok)
    case True
    then show ?thesis using Cons.IH[of "Suc idx" w'] by (auto simp: s intro: list_emb_Cons)
  next
    case False
    then show ?thesis
      using Cons.IH[of "Suc idx" w'] process_videos_acc[of env lc out au g n "Suc idx" rest "[v]" w']
      by (simp add: s)
  qed
qed




lemmas eval_defs = process_video_def download_youtube_audio_def download_body_def os_makedirs_def
  transcribe_audio_and_save_to_txt_def transcribe_body_def select_device_def
  path_exists_def path_join_def Let_def abc_segments_def utf8_encode_cp_def file_write_def
  char_of_def bit_iff_odd



section \<open>Before the loop nothing of the pipeline happens\<close>

lemma quiet_refl [simp]: "quiet w w"
  by (simp add: quiet_def)

lemma quiet_trans: "quiet w w' \<Longrightarrow> quiet w' w'' \<Longrightarrow> quiet w w''"
  by (auto simp: quiet_def)

lemma quiet_emit: "\<not> is_pipeline_event e \<Longrightarrow> quiet w w' \<Longrightarrow> quiet w (emit e w')"
  by (auto simp: quiet_def)

lemma quiet_stdin: "quiet w w' \<Longrightarrow> quiet w (w'\<lparr>stdin := ls\<rparr>)"
  by (auto simp: quiet_def)

lemma quiet_new_events: "quiet w w' \<Longrightarrow> filter is_pipeline_event (new_events w w') = []"
  by (auto simp: quiet_def new_events_def)

lemma py_input_quiet: "quiet w (snd (py_input prompt w))"
  by (auto simp: py_input_def intro!: quiet_emit quiet_stdin split: list.splits)

lemma prompt_quiet: "quiet w w0 \<Longrightarrow> quiet w (snd (prompt_video_ids_file ls w0))"
proof (induction ls arbitrary: w0)
  case Nil
  then show ?case by (auto intro!: quiet_emit)
next
  case (Cons l ls)
  have "quiet w (emit (Input ''Enter path to video IDs .txt file: '') (w0\<lparr>stdin := ls\<rparr>))"
    using Cons.prems by (auto intro!: quiet_emit quiet_stdin)
  from Cons.IH[OF this] this show ?case by (simp add: Let_def)
qed

lemma menu_fold_quiet:
  "quiet w w0 \<Longrightarrow>
   quiet w (foldl (\<lambda>w' (idx, lang). emit (Print (MsgLanguageOption idx lang)) w') w0 xs)"
proof (induction xs arbitrary: w0)
  case Nil
  then show ?case by simp
next
  case (Cons x xs)
  obtain idx lang where x: "x = (idx, lang)" by (cases x)
  have "quiet w (emit (Print (MsgLanguageOption idx lang)) w0)"
    using Cons.prems by (auto intro!: quiet_emit)
  from Cons.IH[OF this] show ?case by (simp add: x)
qed

lemma print_menu_quiet: "quiet w (print_menu w)"
  unfolding print_menu_def by (rule menu_fold_quiet) (auto intro!: quiet_emit)

lemma choose_language_quiet: "quiet w (snd (choose_language env language w))"
proof -
  let ?i = "py_input ''Enter the number for language [3]: '' (print_menu w)"
  have q: "quiet w (snd ?i)"
    using quiet_trans[OF print_menu_quiet py_input_quiet] .
  show ?thesis
    using q
    by (cases ?i; cases "fst ?i")
       (auto simp: choose_language_def intro!: quiet_emit split: option.splits)
qed

lemma language_mode_quiet: "quiet w (snd (language_mode language w))"
  by (auto simp: language_mode_def intro!: quiet_emit)

lemma read_quiet: "quiet w (snd (read_video_ids_from_file env file_path w))"
  by (auto simp: read_video_ids_from_file_def Let_def intro!: quiet_emit
      split: option.splits sum.splits)

lemma fetch_chunk_quiet: "quiet w (snd (fetch_chunk env chunk vil w))"
  by (auto simp: fetch_chunk_def Let_def intro!: quiet_emit
      split: option.splits sum.splits prod.splits)

lemma loop_quiet: "quiet w0 w \<Longrightarrow> quiet w0 (snd (get_video_info_loop env video_ids i vil w))"
proof (induction env video_ids i vil w rule: get_video_info_loop.induct)
  case (1 env video_ids i video_info_list w)
  show ?case
  proof (cases "i < length video_ids")
    case True
    obtain vil' w' where f: "fetch_chunk env (take 50 (drop i video_ids)) video_info_list w = (vil', w')"
      by (cases "fetch_chunk env (take 50 (drop i video_ids)) video_info_list w") auto
    have "quiet w w'" using fetch_chunk_quiet[of w env "take 50 (drop i video_ids)" video_info_list] f
      by simp
    then have "quiet w0 w'" using "1.prems" quiet_trans by blast
    from "1.IH"[OF True f[symmetric] this] show ?thesis
      using True f by (subst get_video_info_loop.simps) simp
  next
    case False
    then show ?thesis using "1.prems" by (subst get_video_info_loop.simps) simp
  qed
qed

lemma get_video_info_quiet: "quiet w (snd (get_video_info env video_ids api_key w))"
proof -
  have q: "quiet w (emit (ApiBuild api_key) w)" by (auto intro!: quiet_emit)
  show ?thesis
    using q loop_quiet[OF q, of env video_ids 0 "[]"]
    by (auto simp: get_video_info_def Let_def split: option.splits prod.splits)
qed

section \<open>\<^verbatim>\<open>main\<close>, split at its exits\<close>

lemma run_batch_unfold:
  fixes env args f key au lc w
  defines "rd \<equiv> read_video_ids_from_file env f w"
  defines "gv \<equiv> get_video_info env (fst rd) key (emit (Print (MsgFound (length (fst rd)))) (snd rd))"
  defines "wl \<equiv> (if projr (fst gv) \<noteq> []
                   then emit (Print (MsgVideoInfoFetched (length (projr (fst gv))))) (snd gv)
                   else snd gv)"
  defines "P \<equiv> process_videos env lc (args_output_path args) au (args_gpu_id args)
                  (length (fst rd)) 1 (fst rd) [] wl"
  shows "run_batch env args f key au lc w =
     (if fst rd = [] then (SysExit 1, emit (Print MsgNoVideoIds) (snd rd))
      else if isl (fst gv) then (Uncaught (projl (fst gv)), snd gv)
      else (Returned, emit (Print (MsgProcessingComplete (fst P))) (snd P)))"
  unfolding rd_def gv_def wl_def P_def
  by (auto simp: run_batch_def split: prod.splits sum.splits)

lemma run_batch_quiet_world:
  fixes env args f key au lc w
  defines "rd \<equiv> read_video_ids_from_file env f w"
  defines "gv \<equiv> get_video_info env (fst rd) key (emit (Print (MsgFound (length (fst rd)))) (snd rd))"
  defines "wl \<equiv> (if projr (fst gv) \<noteq> []
                   then emit (Print (MsgVideoInfoFetched (length (projr (fst gv))))) (snd gv)
                   else snd gv)"
  shows "quiet w (snd rd) \<and> quiet w (snd gv) \<and> quiet w wl"
proof -
  have a: "quiet w (snd rd)" unfolding rd_def by (rule read_quiet)
  have b: "quiet w (emit (Print (MsgFound (length (fst rd)))) (snd rd))"
    using a by (auto intro!: quiet_emit)
  have c: "quiet w (snd gv)" unfolding gv_def by (rule quiet_trans[OF b get_video_info_quiet])
  have d: "quiet w wl" unfolding wl_def using c by (auto intro!: quiet_emit)
  show ?thesis using a c d by simp
qed

lemma run_batch_not_returned:
  assumes "fst (run_batch env args f key au lc w) \<noteq> Returned"
  shows "quiet w (snd (run_batch env args f key au lc w))"
  using assms run_batch_quiet_world[of w env f key]
  by (auto simp: run_batch_unfold intro!: quiet_emit split: if_splits)

lemma run_batch_exit:
  "exit_status (fst (run_batch env args f key au lc w)) = 0 \<longleftrightarrow>
   fst (run_batch env args f key au lc w) = Returned"
  by (simp add: run_batch_unfold)

lemma choose_language_in:
  assumes "l = None \<or> the l \<in> set languages"
    and "choose_language env l w = (Inr language, w')"
  shows "language \<in> set languages"
proof -
  have hindi: "''Hindi'' \<in> set languages" by (simp add: languages_def)
  have nth: "\<And>idx. 1 \<le> idx \<Longrightarrow> idx \<le> int (length languages) \<Longrightarrow>
      languages ! nat (idx - 1) \<in> set languages"
    by (intro nth_mem) auto
  show ?thesis
    using assms hindi nth
    by (auto simp: choose_language_def split: if_splits prod.splits sum.splits option.splits)
qed

lemma language_mode_exclusive:
  assumes "language \<in> set languages"
    and "language_mode language w = ((au, lc), w')"
  shows "if au then lc = None else lc \<noteq> None"
  using assms
  by (auto simp: language_mode_def languages_def get_language_code_def split: if_splits)

lemma main_analysis:
  fixes env args w
  defines "r \<equiv> main env args w"
  shows "(exit_status (fst r) \<noteq> 0 \<and> quiet w (snd r)) \<or>
    (\<exists>f key au lc w3. quiet w w3 \<and> (if au then lc = None else lc \<noteq> None) \<and>
        r = run_batch env args f key au lc w3)"
proof (cases "args_language args \<noteq> None \<and> the (args_language args) \<notin> set languages")
  case True
  then have "r = (SysExit 2, w)" by (simp add: r_def main_def)
  then show ?thesis by simp
next
  case lang: False
  define res where "res = (if args_video_ids_file args = None \<or> args_video_ids_file args = Some []
               then prompt_video_ids_file (stdin w) w
               else (Inr (the (args_video_ids_file args)), w))"
  define key where "key = (if args_api_key args \<noteq> None \<and> args_api_key args \<noteq> Some []
                    then args_api_key args else getenv env ''YT_API_KEY'')"
  have m: "r = (case res of
           (Inl e, w1) \<Rightarrow> (Uncaught e, w1)
         | (Inr video_ids_file, w1) \<Rightarrow>
             if \<not> endswith (map lower_char video_ids_file) ''.txt''
             then (SysExit 1, emit (Print MsgMustBeTxt) w1)
             else if \<not> path_exists w1 video_ids_file
             then (SysExit 1, emit (Print (MsgFileNotFound video_ids_file)) w1)
             else
               (if key = None \<or> key = Some []
                   then (SysExit 1, emit (Print MsgApiKeyRequired) w1)
                   else
                     (case choose_language env (args_language args) w1 of
                        (Inl e, w2) \<Rightarrow> (Uncaught e, w2)
                      | (Inr language, w2) \<Rightarrow>
                          (case language_mode language w2 of
                             ((auto_detect_language, language_code), w3) \<Rightarrow>
                               run_batch env args video_ids_file (the key)
                                 auto_detect_language language_code w3))))"
    unfolding r_def main_def res_def key_def Let_def
    by (subst if_not_P) (fact lang, rule refl)
  have q1: "quiet w (snd res)" using prompt_quiet[of w w "stdin w"] by (simp add: res_def)
  obtain rr w1 where res: "res = (rr, w1)" by (cases res)
  have q1: "quiet w w1" using q1 res by simp
  show ?thesis
  proof (cases rr)
    case (Inl e)
    then have "r = (Uncaught e, w1)" by (simp add: m res)
    then show ?thesis using q1 by simp
  next
    case (Inr f)
    show ?thesis
    proof (cases "endswith (map lower_char f) ''.txt''")
      case False
      then have "r = (SysExit 1, emit (Print MsgMustBeTxt) w1)"
        by (simp add: m res Inr)
      then show ?thesis using q1 by (auto intro!: quiet_emit)
    next
      case istxt: True
      show ?thesis
      proof (cases "path_exists w1 f")
        case False
        then have "r = (SysExit 1, emit (Print (MsgFileNotFound f)) w1)"
          using istxt by (simp add: m res Inr)
        then show ?thesis using q1 by (auto intro!: quiet_emit)
      next
        case ex: True
        show ?thesis
        proof (cases "key = None \<or> key = Some []")
          case True
          then have "r = (SysExit 1, emit (Print MsgApiKeyRequired) w1)"
            using istxt ex by (auto simp add: m res Inr)
          then show ?thesis using q1 by (auto intro!: quiet_emit)
        next
          case k: False
          obtain cr w2 where cl: "choose_language env (args_language args) w1 = (cr, w2)"
            by (cases "choose_language env (args_language args) w1")
          have q2: "quiet w w2"
            using quiet_trans[OF q1 choose_language_quiet[of w1 env "args_language args"]] cl
            by simp
          show ?thesis
          proof (cases cr)
            case (Inl e)
            then have "r = (Uncaught e, w2)"
              using istxt ex k by (auto simp add: m res Inr cl)
            then show ?thesis using q2 by simp
          next
            case lg: (Inr language)
            have lin: "language \<in> set languages"
              using choose_language_in[OF _ cl[unfolded lg]] lang by auto
            obtain au lc w3 where lm: "language_mode language w2 = ((au, lc), w3)"
              by (cases "language_mode language w2") auto
            have q3: "quiet w w3"
              using quiet_trans[OF q2 language_mode_quiet[of w2 language]] lm by simp
            have ex1: "if au then lc = None else lc \<noteq> None"
              by (rule language_mode_exclusive[OF lin lm])
            have "r = run_batch env args f (the key) au lc w3"
              using istxt ex k by (auto simp add: m res Inr cl lg lm)
            then show ?thesis using q3 ex1 by blast
          qed
        qed
      qed
    qed
  qed
qed

section \<open>One language mode per call\<close>

lemma prompt_eof:
  "\<forall>l \<in> set ls. strip l = [] \<Longrightarrow> fst (prompt_video_ids_file ls w) = Inl EOFError"
  by (induction ls arbitrary: w) (simp_all add: Let_def)

lemma quiet_one_mode:
  "filter is_pipeline_event evs = [] \<Longrightarrow> list_all one_language_mode evs"
proof (induction evs)
  case Nil
  then show ?case by simp
next
  case (Cons e evs)
  then show ?case by (cases e) (auto split: if_splits)
qed

lemma no_calls_one_mode:
  "transcribe_calls evs = [] \<Longrightarrow> list_all one_language_mode evs"
proof (induction evs)
  case Nil
  then show ?case by simp
next
  case (Cons e evs)
  then show ?case by (cases e) auto
qed

lemma transcribe_one_mode:
  assumes "if au then lc = None else lc \<noteq> None"
  shows "list_all one_language_mode
           (new_events w (snd (transcribe_audio_and_save_to_txt env a v lc out au g w)))"
proof -
  let ?w0 = "emit (Call_transcribe_audio_and_save_to_txt a v lc out au g) w"
  obtain r w' where b: "transcribe_body env a v lc out au g ?w0 = (r, w')"
    by (cases "transcribe_body env a v lc out au g ?w0") auto
  from transcribe_body_world[OF b] obtain evs where
    t: "trace w' = trace ?w0 @ evs" and c: "transcribe_calls evs = []"
    by blast
  have m: "list_all one_language_mode evs" by (rule no_calls_one_mode[OF c])
  show ?thesis
  proof (cases r)
    case (Inl e)
    then have "snd (transcribe_audio_and_save_to_txt env a v lc out au g w) =
        emit (Print (MsgTranscribeError v e)) w'"
      by (simp add: transcribe_audio_and_save_to_txt_def b)
    then show ?thesis using t m assms by (simp add: new_events_def)
  next
    case (Inr p)
    then have "snd (transcribe_audio_and_save_to_txt env a v lc out au g w) = w'"
      by (simp add: transcribe_audio_and_save_to_txt_def b)
    then show ?thesis using t m assms by (simp add: new_events_def)
  qed
qed

lemma process_video_one_mode:
  assumes "if au then lc = None else lc \<noteq> None"
  shows "list_all one_language_mode
           (new_events w (snd (process_video env lc out au g n idx v w)))"
proof -
  let ?w0 = "emit (Print (MsgProcessing idx n v)) w"
  let ?d = "download_youtube_audio env v out ?w0"
  let ?t = "transcribe_audio_and_save_to_txt env (the (fst ?d)) v lc out au g (snd ?d)"
  have g0: "grows w ?w0" by simp
  have g1: "grows ?w0 (snd ?d)" by (rule download_grows)
  have g2: "grows (snd ?d) (snd ?t)" by (rule transcribe_grows)
  have gd: "grows w (snd ?d)" by (rule grows_trans[OF g0 g1])
  have gt: "grows w (snd ?t)" by (rule grows_trans[OF gd g2])
  have n0: "new_events w ?w0 = [Print (MsgProcessing idx n v)]" by (simp add: new_events_def)
  have m1: "list_all one_language_mode (new_events ?w0 (snd ?d))"
    using download_events[of ?w0 env v out] by (intro no_calls_one_mode) simp
  have m2: "list_all one_language_mode (new_events (snd ?d) (snd ?t))"
    by (rule transcribe_one_mode[OF assms])
  have nd: "new_events w (snd ?d) = new_events w ?w0 @ new_events ?w0 (snd ?d)"
    by (rule new_events_trans[OF g0 g1])
  have nt: "new_events w (snd ?t) = new_events w (snd ?d) @ new_events (snd ?d) (snd ?t)"
    by (rule new_events_trans[OF gd g2])
  have ne: "\<And>w' e. grows w w' \<Longrightarrow> new_events w (emit e w') = new_events w w' @ [e]"
    using new_events_trans[OF _ grows_emit] by (simp add: new_events_def)
  show ?thesis
    unfolding process_video_cases
    using n0 m1 m2 nd nt ne[OF gd] ne[OF gt]
    by simp
qed

lemma process_videos_one_mode:
  assumes "if au then lc = None else lc \<noteq> None"
  shows "list_all one_language_mode
           (new_events w (snd (process_videos env lc out au g n idx ids failed w)))"
proof (induction ids arbitrary: idx failed w)
  case Nil
  then show ?case by (simp add: new_events_def)
next
  case (Cons v rest)
  obtain ok w' where s: "process_video env lc out au g n idx v w = (ok, w')"
    by (cases "process_video env lc out au g n idx v w") auto
  let ?f = "if ok then failed else failed @ [v]"
  let ?w'' = "snd (process_videos env lc out au g n (Suc idx) rest ?f w')"
  have g: "grows w w'" using process_video_grows[of w env lc out au g n idx v] s by simp
  have g2: "grows w' ?w''" by (rule process_videos_grows)
  have e: "list_all one_language_mode (new_events w w')"
    using process_video_one_mode[OF assms, of w env out g n idx v] s by simp
  show ?case
    using new_events_trans[OF g g2] e Cons.IH[of w' "Suc idx" ?f]
    by (simp add: s)
qed

text \<open>
  C9. Every call of the transcription step that a run of \<^verbatim>\<open>main\<close> makes has exactly one
  language mode: the auto-detect flag is set and the language code is \<^verbatim>\<open>None\<close>, or the flag
  is clear and a language code is given. This holds for every command line, every answer
  at the language menu and every behaviour of the collaborators. The Streamlit front end
  builds its pair the same way: with the check box set the code is \<^verbatim>\<open>None\<close>, with the check
  box clear and any of the seven languages of the select box it is a code.
\<close>

theorem language_mode_exclusivity:
  "list_all one_language_mode (new_events w (snd (main env args w))) \<and>
   (selected \<in> set (tl languages) \<longrightarrow>
      (if au then snd (streamlit_language_settings au selected) = None
       else snd (streamlit_language_settings au selected) \<noteq> None))"
proof -
  have a: "list_all one_language_mode (new_events w (snd (main env args w)))"
    using main_analysis[of env args w]
  proof
    assume "exit_status (fst (main env args w)) \<noteq> 0 \<and> quiet w (snd (main env args w))"
    then show ?thesis using quiet_new_events quiet_one_mode by blast
  next
    assume "\<exists>f key au lc w3. quiet w w3 \<and> (if au then lc = None else lc \<noteq> None) \<and>
        main env args w = run_batch env args f key au lc w3"
    then obtain f key au lc w3 where q: "quiet w w3"
      and m: "if au then lc = None else lc \<noteq> None"
      and r: "main env args w = run_batch env args f key au lc w3" by blast
    show ?thesis
    proof (cases "fst (run_batch env args f key au lc w3) = Returned")
      case False
      from run_batch_not_returned[OF this] have "quiet w (snd (main env args w))"
        using q r quiet_trans by auto
      then show ?thesis using quiet_new_events quiet_one_mode by blast
    next
      case True
      define rd where "rd = read_video_ids_from_file env f w3"
      define gv where "gv = get_video_info env (fst rd) key (emit (Print (MsgFound (length (fst rd)))) (snd rd))"
      define wl where "wl = (if projr (fst gv) \<noteq> []
                   then emit (Print (MsgVideoInfoFetched (length (projr (fst gv))))) (snd gv)
                   else snd gv)"
      define P where "P = process_videos env lc (args_output_path args) au (args_gpu_id args)
                  (length (fst rd)) 1 (fst rd) [] wl"
      have u: "run_batch env args f key au lc w3 =
         (if fst rd = [] then (SysExit 1, emit (Print MsgNoVideoIds) (snd rd))
          else if isl (fst gv) then (Uncaught (projl (fst gv)), snd gv)
          else (Returned, emit (Print (MsgProcessingComplete (fst P))) (snd P)))"
        unfolding rd_def gv_def wl_def P_def by (rule run_batch_unfold)
      have w': "snd (main env args w) = emit (Print (MsgProcessingComplete (fst P))) (snd P)"
        using True unfolding r u by (auto split: if_splits)
      from run_batch_quiet_world[of w3 env f key] have "quiet w3 wl"
        unfolding rd_def gv_def wl_def by simp
      then have ql: "quiet w wl" using q quiet_trans by blast
      obtain e1 where e1: "trace wl = trace w @ e1" "filter is_pipeline_event e1 = []"
        using ql by (auto simp: quiet_def)
      have gp: "grows wl (snd P)" unfolding P_def by (rule process_videos_grows)
      have e2: "trace (snd P) = trace wl @ new_events wl (snd P)" by (rule grows_trace[OF gp])
      have m2: "list_all one_language_mode (new_events wl (snd P))"
        unfolding P_def by (rule process_videos_one_mode[OF m])
      have e3: "trace (snd (main env args w)) =
          trace w @ e1 @ new_events wl (snd P) @ [Print (MsgProcessingComplete (fst P))]"
        unfolding w' using e1(1) e2 by simp
      have "new_events w (snd (main env args w)) =
          e1 @ new_events wl (snd P) @ [Print (MsgProcessingComplete (fst P))]"
        unfolding new_events_def e3 by simp
      then show ?thesis using m2 quiet_one_mode[OF e1(2)] by simp
    qed
  qed
  have b: "selected \<in> set (tl languages) \<longrightarrow>
      (if au then snd (streamlit_language_settings au selected) = None
       else snd (streamlit_language_settings au selected) \<noteq> None)"
    by (auto simp: streamlit_language_settings_def languages_def get_language_code_def)
  show ?thesis using a b by simp
qed

lemmas main_eval_defs = main_def run_batch_def read_video_ids_from_file_def file_lines_def
  universal_newlines.simps split_lines.simps strip_def py_isspace_def get_video_info_def
  get_video_info_loop.simps fetch_chunk_def choose_language_def language_mode_def
  get_language_code_def languages_def endswith_def lower_char_def
  args_ok_def world_ids_def emit_def new_events_def

theorem language_mode_exclusivity_witness:
  "list_all one_language_mode
     (new_events (world_ids ''a'') (snd (main env_ok args_ok (world_ids ''a'')))) \<and>
   list_all one_language_mode
     (new_events (world_ids ''a'') (snd (main env_ok args_auto (world_ids ''a'')))) \<and>
   Call_transcribe_audio_and_save_to_txt ''out/a.mp3'' ''a'' (Some ''hi'') ''out'' False 0
     \<in> set (new_events (world_ids ''a'') (snd (main env_ok args_ok (world_ids ''a'')))) \<and>
   Call_transcribe_audio_and_save_to_txt ''out/a.mp3'' ''a'' None ''out'' True 0
     \<in> set (new_events (world_ids ''a'') (snd (main env_ok args_auto (world_ids ''a'')))) \<and>
   (\<exists>code. snd (streamlit_language_settings False ''Hindi'') = Some code) \<and>
   snd (streamlit_language_settings True ''Hindi'') = None"
proof -
  have s: "''Hindi'' \<in> set (tl languages)" by (simp add: languages_def)
  have e1: "Call_transcribe_audio_and_save_to_txt ''out/a.mp3'' ''a'' (Some ''hi'') ''out'' False 0
     \<in> set (new_events (world_ids ''a'') (snd (main env_ok args_ok (world_ids ''a''))))"
    by (simp add: main_eval_defs eval_defs env_ok_def)
  have e2: "Call_transcribe_audio_and_save_to_txt ''out/a.mp3'' ''a'' None ''out'' True 0
     \<in> set (new_events (world_ids ''a'') (snd (main env_ok args_auto (world_ids ''a''))))"
    by (simp add: args_auto_def main_eval_defs eval_defs env_ok_def)
  show ?thesis
    using language_mode_exclusivity [where w = "world_ids ''a''" and env = env_ok
        and args = args_ok and selected = "''Hindi''" and au = False]
      language_mode_exclusivity [where w = "world_ids ''a''" and env = env_ok
        and args = args_auto and selected = "''Hindi''" and au = True] s e1 e2
    by auto
qed

section \<open>How the process ends\<close>

text \<open>
  C8.
  \<^item> Whenever \<^verbatim>\<open>main\<close> ends with a non-zero status, no event of the per-item pipeline
    (entering a step, creating the directory, download, device, model, inference, writing
    a transcript) has happened and the files and directories are as they were.
  \<^item> With the identifier file named on the command line: a name that does not end in
    \<^verbatim>\<open>.txt\<close> ends the process with status 1 after the line \<^verbatim>\<open>must be a .txt file\<close>; a name
    that does not exist, with status 1 after \<^verbatim>\<open>File not found\<close>; no key on the command
    line and none in the environment, with status 1 after \<^verbatim>\<open>API Key is required\<close>; in each
    case that line is the only thing that happened.
  \<^item> With no file named and no non-blank line on standard input, \<^verbatim>\<open>input\<close> raises
    \<^verbatim>\<open>EOFError\<close>, which leaves \<^verbatim>\<open>main\<close> (status 1).
  \<^item> Whenever an event of the per-item pipeline has happened, the status is 0 and the last
    line printed is the summary with the failed identifiers.
  \<^item> Once the identifier list is not empty and the metadata step has returned, the status
    is 0 whatever the items do.
\<close>

theorem preflight_exit:
  "(exit_status (fst (main env args w)) \<noteq> 0 \<longrightarrow>
      filter is_pipeline_event (new_events w (snd (main env args w))) = [] \<and>
      files (snd (main env args w)) = files w \<and>
      dirs (snd (main env args w)) = dirs w) \<and>
   (valid_language_arg args \<and> args_video_ids_file args = Some f \<and> f \<noteq> [] \<longrightarrow>
      (\<not> endswith (map lower_char f) ''.txt'' \<longrightarrow>
         main env args w = (SysExit 1, emit (Print MsgMustBeTxt) w)) \<and>
      (endswith (map lower_char f) ''.txt'' \<and> \<not> path_exists w f \<longrightarrow>
         main env args w = (SysExit 1, emit (Print (MsgFileNotFound f)) w)) \<and>
      (endswith (map lower_char f) ''.txt'' \<and> path_exists w f \<and>
       (args_api_key args = None \<or> args_api_key args = Some []) \<and>
       (getenv env ''YT_API_KEY'' = None \<or> getenv env ''YT_API_KEY'' = Some []) \<longrightarrow>
         main env args w = (SysExit 1, emit (Print MsgApiKeyRequired) w))) \<and>
   (valid_language_arg args \<and>
    (args_video_ids_file args = None \<or> args_video_ids_file args = Some []) \<and>
    (\<forall>l \<in> set (stdin w). strip l = []) \<longrightarrow>
      fst (main env args w) = Uncaught EOFError) \<and>
   (filter is_pipeline_event (new_events w (snd (main env args w))) \<noteq> [] \<longrightarrow>
      exit_status (fst (main env args w)) = 0 \<and>
      (\<exists>failed. last (trace (snd (main env args w))) = Print (MsgProcessingComplete failed))) \<and>
   (fst (read_video_ids_from_file env f w) \<noteq> [] \<and>
    \<not> isl (fst (get_video_info env (fst (read_video_ids_from_file env f w)) key
              (emit (Print (MsgFound (length (fst (read_video_ids_from_file env f w)))))
                 (snd (read_video_ids_from_file env f w))))) \<longrightarrow>
      exit_status (fst (run_batch env args f key au lc w)) = 0)"
proof -
  let ?r = "main env args w"
  have dich: "(exit_status (fst ?r) \<noteq> 0 \<and> quiet w (snd ?r)) \<or>
      (exit_status (fst ?r) = 0 \<and>
       (\<exists>failed. last (trace (snd ?r)) = Print (MsgProcessingComplete failed)))"
    using main_analysis[of env args w]
  proof
    assume "exit_status (fst ?r) \<noteq> 0 \<and> quiet w (snd ?r)"
    then show ?thesis by simp
  next
    assume "\<exists>f key au lc w3. quiet w w3 \<and> (if au then lc = None else lc \<noteq> None) \<and>
        ?r = run_batch env args f key au lc w3"
    then obtain f key au lc w3 where q: "quiet w w3"
      and r: "?r = run_batch env args f key au lc w3" by blast
    show ?thesis
    proof (cases "fst (run_batch env args f key au lc w3) = Returned")
      case False
      from run_batch_not_returned[OF this] have "quiet w (snd ?r)"
        using q r quiet_trans by auto
      then show ?thesis using False r run_batch_exit[of env args f key au lc w3] by simp
    next
      case True
      then show ?thesis unfolding r run_batch_unfold by (auto split: if_splits)
    qed
  qed
  have c1: "exit_status (fst ?r) \<noteq> 0 \<longrightarrow>
      filter is_pipeline_event (new_events w (snd ?r)) = [] \<and>
      files (snd ?r) = files w \<and> dirs (snd ?r) = dirs w"
    using dich quiet_new_events[of w "snd ?r"] by (auto simp: quiet_def)
  have c2: "valid_language_arg args \<and> args_video_ids_file args = Some f \<and> f \<noteq> [] \<longrightarrow>
      (\<not> endswith (map lower_char f) ''.txt'' \<longrightarrow>
         ?r = (SysExit 1, emit (Print MsgMustBeTxt) w)) \<and>
      (endswith (map lower_char f) ''.txt'' \<and> \<not> path_exists w f \<longrightarrow>
         ?r = (SysExit 1, emit (Print (MsgFileNotFound f)) w)) \<and>
      (endswith (map lower_char f) ''.txt'' \<and> path_exists w f \<and>
       (args_api_key args = None \<or> args_api_key args = Some []) \<and>
       (getenv env ''YT_API_KEY'' = None \<or> getenv env ''YT_API_KEY'' = Some []) \<longrightarrow>
         ?r = (SysExit 1, emit (Print MsgApiKeyRequired) w))"
    by (auto simp: main_def valid_language_arg_def Let_def)
  have c3: "valid_language_arg args \<and>
    (args_video_ids_file args = None \<or> args_video_ids_file args = Some []) \<and>
    (\<forall>l \<in> set (stdin w). strip l = []) \<longrightarrow> fst ?r = Uncaught EOFError"
  proof
    assume h: "valid_language_arg args \<and>
      (args_video_ids_file args = None \<or> args_video_ids_file args = Some []) \<and>
      (\<forall>l \<in> set (stdin w). strip l = [])"
    then have "fst (prompt_video_ids_file (stdin w) w) = Inl EOFError"
      by (intro prompt_eof) simp
    then obtain w1 where "prompt_video_ids_file (stdin w) w = (Inl EOFError, w1)"
      by (cases "prompt_video_ids_file (stdin w) w") auto
    then show "fst ?r = Uncaught EOFError"
      using h by (auto simp: main_def valid_language_arg_def)
  qed
  have c4: "filter is_pipeline_event (new_events w (snd ?r)) \<noteq> [] \<longrightarrow>
      exit_status (fst ?r) = 0 \<and>
      (\<exists>failed. last (trace (snd ?r)) = Print (MsgProcessingComplete failed))"
    using dich quiet_new_events[of w "snd ?r"] by auto
  have c5: "fst (read_video_ids_from_file env f w) \<noteq> [] \<and>
    \<not> isl (fst (get_video_info env (fst (read_video_ids_from_file env f w)) key
              (emit (Print (MsgFound (length (fst (read_video_ids_from_file env f w)))))
                 (snd (read_video_ids_from_file env f w))))) \<longrightarrow>
      exit_status (fst (run_batch env args f key au lc w)) = 0"
    by (simp add: run_batch_unfold)
  show ?thesis using c1 c2 c3 c4 c5 by blast
qed

theorem preflight_exit_witness:
  "main env_ok args_csv world0 = (SysExit 1, emit (Print MsgMustBeTxt) world0) \<and>
   main env_ok args_ok world0 = (SysExit 1, emit (Print (MsgFileNotFound ''ids.txt'')) world0) \<and>
   main env_ok args_no_key (world_ids ''a'') =
     (SysExit 1, emit (Print MsgApiKeyRequired) (world_ids ''a'')) \<and>
   fst (main env_ok args_no_file world0) = Uncaught EOFError \<and>
   filter is_pipeline_event (new_events world0 (snd (main env_ok args_ok world0))) = [] \<and>
   files (snd (main env_ok args_ok world0)) = files world0 \<and>
   dirs (snd (main env_ok args_ok world0)) = dirs world0 \<and>
   exit_status (fst (main env_b_fails args_ok (world_ids [CHR ''a'', CHR 0x0A, CHR ''b'']))) = 0 \<and>
   (\<exists>failed. last (trace (snd (main env_b_fails args_ok
        (world_ids [CHR ''a'', CHR 0x0A, CHR ''b''])))) = Print (MsgProcessingComplete failed)) \<and>
   exit_status (fst (run_batch env_b_fails args_ok ''ids.txt'' ''key'' False (Some ''hi'')
        (world_ids [CHR ''a'', CHR 0x0A, CHR ''b'']))) = 0"
proof -
  let ?w = "world_ids [CHR ''a'', CHR 0x0A, CHR ''b'']"
  have v: "valid_language_arg args_csv" "valid_language_arg args_ok"
    "valid_language_arg args_no_key" "valid_language_arg args_no_file"
    by (simp_all add: valid_language_arg_def args_csv_def args_ok_def args_no_key_def
        args_no_file_def languages_def)
  have f: "args_video_ids_file args_csv = Some ''ids.csv''"
    "args_video_ids_file args_ok = Some ''ids.txt''"
    "args_video_ids_file args_no_key = Some ''ids.txt''"
    "args_video_ids_file args_no_file = None"
    "args_api_key args_no_key = None"
    by (simp_all add: args_csv_def args_ok_def args_no_key_def args_no_file_def)
  have e: "\<not> endswith (map lower_char ''ids.csv'') ''.txt''"
    "endswith (map lower_char ''ids.txt'') ''.txt''"
    by (simp_all add: endswith_def lower_char_def)
  have p: "\<not> path_exists world0 ''ids.txt''" "path_exists (world_ids ''a'') ''ids.txt''"
    by (simp_all add: path_exists_def world0_def world_ids_def)
  have k: "getenv env_ok ''YT_API_KEY'' = None" by (simp add: env_ok_def)
  have i: "\<forall>l \<in> set (stdin world0). strip l = []" by (simp add: world0_def)
  have b: "filter is_pipeline_event (new_events ?w (snd (main env_b_fails args_ok ?w))) \<noteq> []"
    by (simp add: main_eval_defs eval_defs env_b_fails_def env_ok_def)
  have r: "fst (read_video_ids_from_file env_b_fails ''ids.txt'' ?w) \<noteq> []"
    by (simp add: main_eval_defs env_b_fails_def env_ok_def)
  have g: "\<not> isl (fst (get_video_info env_b_fails
              (fst (read_video_ids_from_file env_b_fails ''ids.txt'' ?w)) ''key''
              (emit (Print (MsgFound (length (fst (read_video_ids_from_file env_b_fails
                 ''ids.txt'' ?w))))) (snd (read_video_ids_from_file env_b_fails ''ids.txt'' ?w)))))"
    by (simp add: main_eval_defs env_b_fails_def env_ok_def)
  have a1: "main env_ok args_csv world0 = (SysExit 1, emit (Print MsgMustBeTxt) world0)"
    using preflight_exit [where env = env_ok and args = args_csv and w = world0
        and f = "''ids.csv''"] v f e by simp
  have a2: "main env_ok args_ok world0 =
      (SysExit 1, emit (Print (MsgFileNotFound ''ids.txt'')) world0)"
    using preflight_exit [where env = env_ok and args = args_ok and w = world0
        and f = "''ids.txt''"] v f e p by simp
  have a3: "main env_ok args_no_key (world_ids ''a'') =
     (SysExit 1, emit (Print MsgApiKeyRequired) (world_ids ''a''))"
    using preflight_exit [where env = env_ok and args = args_no_key and w = "world_ids ''a''"
        and f = "''ids.txt''"] v f e p k by simp
  have a4: "fst (main env_ok args_no_file world0) = Uncaught EOFError"
    using preflight_exit [where env = env_ok and args = args_no_file and w = world0] v f i
    by simp
  have a5: "filter is_pipeline_event (new_events world0 (snd (main env_ok args_ok world0))) = [] \<and>
     files (snd (main env_ok args_ok world0)) = files world0 \<and>
     dirs (snd (main env_ok args_ok world0)) = dirs world0"
    using preflight_exit [where env = env_ok and args = args_ok and w = world0] a2 by simp
  have a6: "exit_status (fst (main env_b_fails args_ok ?w)) = 0 \<and>
     (\<exists>failed. last (trace (snd (main env_b_fails args_ok ?w))) =
        Print (MsgProcessingComplete failed))"
    using preflight_exit [where env = env_b_fails and args = args_ok and w = ?w] b by blast
  have a7: "exit_status (fst (run_batch env_b_fails args_ok ''ids.txt'' ''key'' False (Some ''hi'')
        ?w)) = 0"
    using preflight_exit [where env = env_b_fails and args = args_ok and w = ?w
        and f = "''ids.txt''" and key = "''key''" and au = False and lc = "Some ''hi''"] r g
    by blast
  show ?thesis using a1 a2 a3 a4 a5 a6 a7 by simp
qed

section \<open>The summary\<close>

text \<open>
  C5. A run of \<^verbatim>\<open>main\<close> that returns has gone through \<^verbatim>\<open>run_batch\<close>, and a \<^verbatim>\<open>run_batch\<close>
  that returns ends with exactly one line after the loop: the summary carrying the list of
  failed identifiers and nothing else. That list is a subsequence of the work list, every
  identifier of the work list was processed, and an identifier is appended to the list at
  the moment its item fails, so the order of the list is the order of the failures. No
  count is part of the summary.
\<close>

theorem final_summary:
  fixes env args f key au lc w
  defines "ids \<equiv> fst (read_video_ids_from_file env f w)"
  defines "loop \<equiv> process_videos env lc (args_output_path args) au (args_gpu_id args)
                     (length ids) 1 ids []"
  shows
   "(fst (main env args w) = Returned \<longrightarrow>
       (\<exists>f' key' au' lc' w'. quiet w w' \<and>
          main env args w = run_batch env args f' key' au' lc' w')) \<and>
    (fst (run_batch env args f key au lc w) = Returned \<longrightarrow>
       (\<exists>wl. quiet w wl \<and>
          run_batch env args f key au lc w =
            (Returned, emit (Print (MsgProcessingComplete (fst (loop wl)))) (snd (loop wl))) \<and>
          subseq (fst (loop wl)) ids \<and>
          download_calls (new_events wl (snd (loop wl))) = ids)) \<and>
    fst (process_videos env lc out au g n idx (pre @ [v]) failed w) =
      (if fst (process_video env lc out au g n (idx + length pre) v
                 (snd (process_videos env lc out au g n idx pre failed w)))
       then fst (process_videos env lc out au g n idx pre failed w)
       else fst (process_videos env lc out au g n idx pre failed w) @ [v])"
proof -
  have c1: "fst (main env args w) = Returned \<longrightarrow>
       (\<exists>f' key' au' lc' w'. quiet w w' \<and>
          main env args w = run_batch env args f' key' au' lc' w')"
  proof
    assume "fst (main env args w) = Returned"
    then have "exit_status (fst (main env args w)) = 0" by simp
    with main_analysis[of env args w]
    show "\<exists>f' key' au' lc' w'. quiet w w' \<and>
          main env args w = run_batch env args f' key' au' lc' w'"
      by blast
  qed
  have c2: "fst (run_batch env args f key au lc w) = Returned \<longrightarrow>
       (\<exists>wl. quiet w wl \<and>
          run_batch env args f key au lc w =
            (Returned, emit (Print (MsgProcessingComplete (fst (loop wl)))) (snd (loop wl))) \<and>
          subseq (fst (loop wl)) ids \<and>
          download_calls (new_events wl (snd (loop wl))) = ids)"
  proof
    assume h: "fst (run_batch env args f key au lc w) = Returned"
    define gv where "gv = get_video_info env ids key (emit (Print (MsgFound (length ids))) (snd (read_video_ids_from_file env f w)))"
    define wl where "wl = (if projr (fst gv) \<noteq> []
                   then emit (Print (MsgVideoInfoFetched (length (projr (fst gv))))) (snd gv)
                   else snd gv)"
    have q: "quiet w wl"
      using run_batch_quiet_world[of w env f key] unfolding wl_def gv_def ids_def by simp
    have r: "run_batch env args f key au lc w =
            (Returned, emit (Print (MsgProcessingComplete (fst (loop wl)))) (snd (loop wl)))"
      using h unfolding run_batch_unfold loop_def wl_def gv_def ids_def
      by (auto split: if_splits)
    have s: "subseq (fst (loop wl)) ids" unfolding loop_def by (rule process_videos_subseq)
    have d: "download_calls (new_events wl (snd (loop wl))) = ids"
      unfolding loop_def by (rule process_videos_events)
    show "\<exists>wl. quiet w wl \<and>
          run_batch env args f key au lc w =
            (Returned, emit (Print (MsgProcessingComplete (fst (loop wl)))) (snd (loop wl))) \<and>
          subseq (fst (loop wl)) ids \<and>
          download_calls (new_events wl (snd (loop wl))) = ids"
      using q r s d by blast
  qed
  have c3: "fst (process_videos env lc out au g n idx (pre @ [v]) failed w) =
      (if fst (process_video env lc out au g n (idx + length pre) v
                 (snd (process_videos env lc out au g n idx pre failed w)))
       then fst (process_videos env lc out au g n idx pre failed w)
       else fst (process_videos env lc out au g n idx pre failed w) @ [v])"
    by (simp add: process_videos_append[of env lc out au g n idx pre "[v]"] split: prod.splits)
  show ?thesis using c1 c2 c3 by blast
qed

theorem final_summary_witness:
  "(\<exists>f' key' au' lc' w'. quiet (world_ids [CHR ''a'', CHR 0x0A, CHR ''b'']) w' \<and>
      main env_b_fails args_ok (world_ids [CHR ''a'', CHR 0x0A, CHR ''b'']) =
        run_batch env_b_fails args_ok f' key' au' lc' w') \<and>
   (\<exists>wl. run_batch env_b_fails args_ok ''ids.txt'' ''key'' False (Some ''hi'')
            (world_ids [CHR ''a'', CHR 0x0A, CHR ''b'']) =
          (Returned,
           emit (Print (MsgProcessingComplete
                   (fst (process_videos env_b_fails (Some ''hi'') ''out'' False 0 2 1
                           [''a'', ''b''] [] wl))))
             (snd (process_videos env_b_fails (Some ''hi'') ''out'' False 0 2 1
                     [''a'', ''b''] [] wl))))"
proof -
  let ?w = "world_ids [CHR ''a'', CHR 0x0A, CHR ''b'']"
  have m: "fst (main env_b_fails args_ok ?w) = Returned"
    by (simp add: main_eval_defs eval_defs env_b_fails_def env_ok_def)
  have b: "fst (run_batch env_b_fails args_ok ''ids.txt'' ''key'' False (Some ''hi'') ?w)
      = Returned"
    by (simp add: main_eval_defs eval_defs env_b_fails_def env_ok_def)
  have i: "fst (read_video_ids_from_file env_b_fails ''ids.txt'' ?w) = [''a'', ''b'']"
    by (simp add: main_eval_defs env_b_fails_def env_ok_def)
  have o: "args_output_path args_ok = ''out''" "args_gpu_id args_ok = 0"
    by (simp_all add: args_ok_def)
  have a1: "\<exists>f' key' au' lc' w'. quiet ?w w' \<and>
      main env_b_fails args_ok ?w = run_batch env_b_fails args_ok f' key' au' lc' w'"
    using final_summary [where env = env_b_fails and args = args_ok and w = ?w] m by blast
  have a2: "\<exists>wl. run_batch env_b_fails args_ok ''ids.txt'' ''key'' False (Some ''hi'') ?w =
          (Returned,
           emit (Print (MsgProcessingComplete
                   (fst (process_videos env_b_fails (Some ''hi'') ''out'' False 0 2 1
                           [''a'', ''b''] [] wl))))
             (snd (process_videos env_b_fails (Some ''hi'') ''out'' False 0 2 1
                     [''a'', ''b''] [] wl)))"
    using final_summary [where env = env_b_fails and args = args_ok and w = ?w
        and f = "''ids.txt''" and key = "''key''" and au = False and lc = "Some ''hi''"] b
    unfolding i o by (simp only: list.size numeral_2_eq_2 One_nat_def add_Suc add_0 refl) blast
  show ?thesis using a1 a2 by simp
qed

text \<open>
  C5, the counts. Two runs in which every item succeeds, one over one identifier and one
  over two: after the last item's own last line both print the same summary, with the
  empty list, although one identifier was processed in the first and two in the second.
\<close>

theorem final_summary_counterexample:
  "trace (snd (main env_ok args_ok (world_ids ''a''))) =
     butlast (butlast (trace (snd (main env_ok args_ok (world_ids ''a''))))) @
     [Print (MsgTranscriptSaved ''a'' ''out/a_transcription.txt''),
      Print (MsgProcessingComplete [])] \<and>
   trace (snd (main env_ok args_ok (world_ids [CHR ''a'', CHR 0x0A, CHR ''b'']))) =
     butlast (butlast (trace (snd (main env_ok args_ok
        (world_ids [CHR ''a'', CHR 0x0A, CHR ''b'']))))) @
     [Print (MsgTranscriptSaved ''b'' ''out/b_transcription.txt''),
      Print (MsgProcessingComplete [])] \<and>
   download_calls (trace (snd (main env_ok args_ok (world_ids ''a'')))) = [''a''] \<and>
   download_calls (trace (snd (main env_ok args_ok
        (world_ids [CHR ''a'', CHR 0x0A, CHR ''b''])))) = [''a'', ''b'']"
  by (simp add: main_eval_defs eval_defs env_ok_def)

end
